theory Spec2Isabelle
  imports Main "HOL-Library.Word" "HOL-Library.Sublist" "HOL-Library.Multiset"
begin

section \<open>Data model of the index coordinator\<close>

text \<open>
  The coordinator is the Go type \<open>IndexCoord\<close> (package \<open>indexcoord\<close>). Its
  identifiers are \<open>typeutil.UniqueID\<close>, an \<open>int64\<close>: a 64-bit word, read
  through \<open>sint\<close> wherever the code compares or prints it.
\<close>

type_synonym UniqueID = "64 word"

datatype ErrorCode = ErrorCode_Success | ErrorCode_UnexpectedError

datatype StateCode = StateCode_Initializing | StateCode_Healthy | StateCode_Abnormal

datatype IndexState = IndexStateNone | Unissued | InProgress | Finished | Failed

record Status =
  ErrorCode :: ErrorCode
  Reason :: string

record ComponentInfo =
  ci_NodeID :: UniqueID
  ci_Role :: string
  ci_StateCode :: StateCode

record ComponentStates =
  cs_State :: ComponentInfo
  cs_SubcomponentStates :: "ComponentInfo list"
  cs_Status :: Status

record BuildIndexRequest =
  req_IndexBuildID :: UniqueID
  req_IndexName :: string
  req_IndexID :: UniqueID
  req_DataPaths :: "string list"
  req_TypeParams :: "(string \<times> string) list"
  req_IndexParams :: "(string \<times> string) list"

record IndexMeta =
  IndexBuildID :: UniqueID
  State :: IndexState
  Version :: "64 word"
  NodeID :: UniqueID
  MarkDeleted :: bool
  Recycled :: bool
  IndexFilePaths :: "string list"
  Req :: BuildIndexRequest

record Meta =
  indexMeta :: IndexMeta

record CreateIndexRequest =
  cir_IndexBuildID :: UniqueID
  cir_IndexName :: string
  cir_IndexID :: UniqueID
  cir_Version :: "64 word"
  cir_MetaPath :: string
  cir_DataPaths :: "string list"
  cir_TypeParams :: "(string \<times> string) list"
  cir_IndexParams :: "(string \<times> string) list"

text \<open>
  A worker as the node manager holds it: its server id, which is also the handle of its
  RPC client, and its priority, the number of tasks in flight on it.
\<close>

record NodeRecord =
  ServerID :: UniqueID
  Priority :: int

datatype IndexNodeClient = Client UniqueID

text \<open>
  The calls the coordinator makes on its collaborators (worker RPCs, the blob store and
  the writes of the metadata table), in the order it makes them. The Boolean is whether
  the call returned without an error.
\<close>

datatype Call =
    Call_UpdateVersion UniqueID bool
  | Call_CreateIndex UniqueID CreateIndexRequest bool
  | Call_BuildIndex UniqueID UniqueID bool
  | Call_IncPriority UniqueID int
  | Call_RemoveWithPrefix string bool
  | Call_DeleteIndex UniqueID
  | Call_UpdateRecycleState UniqueID bool

record IndexCoord =
  stateCode :: StateCode
  ID :: UniqueID
  metaTable :: "Meta list"
  nodeManager :: "NodeRecord list"
  idAllocator :: UniqueID
  calls :: "Call list"

section \<open>Construction and health\<close>

definition UpdateStateCode :: "StateCode \<Rightarrow> IndexCoord \<Rightarrow> IndexCoord" where
  "UpdateStateCode code i = i\<lparr>stateCode := code\<rparr>"

text \<open>
  \<open>NewIndexCoord\<close> fills in the loop context only and stores \<open>Abnormal\<close>; every
  other field has Go's zero value.
\<close>

definition NewIndexCoord :: IndexCoord where
  "NewIndexCoord =
     UpdateStateCode StateCode_Abnormal
       \<lparr>stateCode = StateCode_Initializing, ID = 0, metaTable = [], nodeManager = [],
        idAllocator = 0, calls = []\<rparr>"

definition isHealthy :: "IndexCoord \<Rightarrow> bool" where
  "isHealthy i = (stateCode i = StateCode_Healthy)"

text \<open>
  A Go result pair \<open>(resp, err)\<close>: the response pointer may be nil, and so may the error.
\<close>

type_synonym 'a rpc_result = "'a option \<times> string option"

definition GetComponentStates :: "IndexCoord \<Rightarrow> ComponentStates rpc_result" where
  "GetComponentStates i =
     (let stateInfo = \<lparr>ci_NodeID = ID i, ci_Role = ''IndexCoord'', ci_StateCode = stateCode i\<rparr>;
          ret = \<lparr>cs_State = stateInfo, cs_SubcomponentStates = [],
                 cs_Status = \<lparr>ErrorCode = ErrorCode_Success, Reason = ''''\<rparr>\<rparr>
      in (Some ret, None))"


record GetMetricsRequest =
  gm_Request :: string

record GetMetricsResponse =
  gmr_Status :: Status
  gmr_Response :: string
  gmr_ComponentName :: string

section \<open>The environment of the coordinator\<close>

text \<open>
  What the coordinator cannot decide by itself is read from an environment: the live
  sessions of the service registry, the answer of a worker to \<open>CreateIndex\<close>
  (\<open>Inl\<close> a transport error, \<open>Inr\<close> the worker's status), the error of the blob
  store's \<open>RemoveWithPrefix\<close>, the errors of the registry writes behind the metadata
  table, the state of the admission queue, the functions of package \<open>metricsinfo\<close>, and
  \<open>sort.Slice\<close> of the Go library, which the assignment loop calls on its tasks with a
  comparison. \<open>None\<close> is Go's nil error.
\<close>

record Env =
  env_sessions :: "UniqueID list"
  env_CreateIndex :: "UniqueID \<Rightarrow> CreateIndexRequest \<Rightarrow> string + Status"
  env_RemoveWithPrefix :: "string \<Rightarrow> string option"
  env_UpdateVersionErr :: "UniqueID \<Rightarrow> string option"
  env_BuildIndexErr :: "UniqueID \<Rightarrow> string option"
  env_UpdateRecycleStateErr :: "UniqueID \<Rightarrow> string option"
  env_MarkIndexAsDeletedErr :: "UniqueID \<Rightarrow> string option"
  env_ctxDone :: bool
  env_EnqueueErr :: "string option"
  env_WaitToFinishErr :: "string option"
  env_msgIndexCoordIsUnhealthy :: "UniqueID \<Rightarrow> string"
  env_ParseMetricType :: "string \<Rightarrow> string + string"
  env_SystemInfoMetrics :: string
  env_MsgUnimplementedMetric :: string
  env_getSystemInfoMetrics :: "GetMetricsRequest \<Rightarrow> GetMetricsResponse"
  env_sortSlice :: "(Meta \<Rightarrow> Meta \<Rightarrow> bool) \<Rightarrow> Meta list \<Rightarrow> Meta list"

section \<open>The metadata table\<close>

text \<open>
  The table \<open>indexBuildID2Meta\<close> is kept as the list of its records in the order a scan
  visits them. The methods of \<open>metaTable\<close> are not among the sources; each is taken from
  its description in the specification.
\<close>

definition hasMeta :: "Meta list \<Rightarrow> UniqueID \<Rightarrow> bool" where
  "hasMeta mt indexBuildID = (indexBuildID \<in> set (map (\<lambda>m. IndexBuildID (indexMeta m)) mt))"

definition updMeta :: "UniqueID \<Rightarrow> (IndexMeta \<Rightarrow> IndexMeta) \<Rightarrow> Meta list \<Rightarrow> Meta list" where
  "updMeta indexBuildID f mt =
     map (\<lambda>m. if IndexBuildID (indexMeta m) = indexBuildID then m\<lparr>indexMeta := f (indexMeta m)\<rparr> else m) mt"

definition getMeta :: "Meta list \<Rightarrow> UniqueID \<Rightarrow> Meta option" where
  "getMeta mt indexBuildID = find (\<lambda>m. IndexBuildID (indexMeta m) = indexBuildID) mt"

text \<open>
  Modelled from the spec: the fingerprint of a request, absent from the sources with
  \<open>HasSameReq\<close>. Section 3 gives it as the pair of \<open>Req.IndexID\<close> and \<open>Req.DataPaths\<close>.
\<close>

definition fingerprint :: "BuildIndexRequest \<Rightarrow> UniqueID \<times> string list" where
  "fingerprint r = (req_IndexID r, req_DataPaths r)"

text \<open>
  Modelled from the spec: \<open>metaTable.HasSameReq\<close>, absent from the sources. It scans the
  records for the fingerprint of the request and ignores the records marked as deleted;
  it answers the id of the record it finds.
\<close>

definition sameRequest :: "BuildIndexRequest \<Rightarrow> Meta \<Rightarrow> bool" where
  "sameRequest req m =
     (\<not> MarkDeleted (indexMeta m) \<and> fingerprint (Req (indexMeta m)) = fingerprint req)"

definition HasSameReq :: "Meta list \<Rightarrow> BuildIndexRequest \<Rightarrow> bool \<times> UniqueID" where
  "HasSameReq mt req =
     (case find (sameRequest req) mt of
        None \<Rightarrow> (False, 0)
      | Some m \<Rightarrow> (True, IndexBuildID (indexMeta m)))"

text \<open>
  Modelled from the spec: \<open>metaTable.AddTask\<close>, absent from the sources. It persists a new
  record with \<open>State = Unissued\<close> and \<open>Version = 0\<close>, and fails if a record with the id
  exists.
\<close>

definition AddTask :: "Meta list \<Rightarrow> BuildIndexRequest \<Rightarrow> UniqueID \<Rightarrow> string option \<times> Meta list" where
  "AddTask mt req indexBuildID =
     (if hasMeta mt indexBuildID then (Some ''index already exists'', mt)
      else (None, mt @ [\<lparr>indexMeta = \<lparr>IndexBuildID = indexBuildID, State = Unissued, Version = 0,
                                        NodeID = 0, MarkDeleted = False, Recycled = False,
                                        IndexFilePaths = [], Req = req\<rparr>\<rparr>]))"

text \<open>
  Modelled from the spec: \<open>metaTable.UpdateVersion\<close>, absent from the sources. It bumps
  \<open>Version\<close> of the record under a compare-and-swap on the registry and reports the
  conflict when the swap fails; the record is then as it was.
\<close>

definition mt_UpdateVersion :: "Env \<Rightarrow> Meta list \<Rightarrow> UniqueID \<Rightarrow> string option \<times> Meta list" where
  "mt_UpdateVersion env mt indexBuildID =
     (if \<not> hasMeta mt indexBuildID then (Some ''there is no index with this IndexBuildID'', mt)
      else case env_UpdateVersionErr env indexBuildID of
             Some e \<Rightarrow> (Some e, mt)
           | None \<Rightarrow> (None, updMeta indexBuildID (\<lambda>m. m\<lparr>Version := Version m + 1\<rparr>) mt))"

text \<open>
  Modelled from the spec: \<open>metaTable.BuildIndex\<close>, absent from the sources. It sets
  \<open>State = InProgress\<close> and \<open>NodeID\<close> under a compare-and-swap.
\<close>

definition mt_BuildIndex :: "Env \<Rightarrow> Meta list \<Rightarrow> UniqueID \<Rightarrow> UniqueID \<Rightarrow> string option \<times> Meta list" where
  "mt_BuildIndex env mt indexBuildID nodeID =
     (if \<not> hasMeta mt indexBuildID then (Some ''there is no index with this IndexBuildID'', mt)
      else case env_BuildIndexErr env indexBuildID of
             Some e \<Rightarrow> (Some e, mt)
           | None \<Rightarrow> (None, updMeta indexBuildID (\<lambda>m. m\<lparr>State := InProgress, NodeID := nodeID\<rparr>) mt))"

text \<open>
  Modelled from the spec: \<open>metaTable.MarkIndexAsDeleted\<close>, absent from the sources. It sets
  \<open>MarkDeleted\<close> on all the tasks of the index.
\<close>

definition MarkIndexAsDeleted :: "Env \<Rightarrow> Meta list \<Rightarrow> UniqueID \<Rightarrow> string option \<times> Meta list" where
  "MarkIndexAsDeleted env mt indexID =
     (case env_MarkIndexAsDeletedErr env indexID of
        Some e \<Rightarrow> (Some e, mt)
      | None \<Rightarrow> (None, map (\<lambda>m. if req_IndexID (Req (indexMeta m)) = indexID
                                   then m\<lparr>indexMeta := (indexMeta m)\<lparr>MarkDeleted := True\<rparr>\<rparr> else m) mt))"

text \<open>
  Modelled from the spec: \<open>metaTable.DeleteIndex\<close>, absent from the sources. It removes the
  record; the coordinator reads no result from it.
\<close>

definition mt_DeleteIndex :: "Meta list \<Rightarrow> UniqueID \<Rightarrow> Meta list" where
  "mt_DeleteIndex mt indexBuildID = filter (\<lambda>m. IndexBuildID (indexMeta m) \<noteq> indexBuildID) mt"

text \<open>
  Modelled from the spec: \<open>metaTable.UpdateRecycleState\<close>, absent from the sources. It sets
  \<open>Recycled\<close> of the record.
\<close>

definition mt_UpdateRecycleState :: "Env \<Rightarrow> Meta list \<Rightarrow> UniqueID \<Rightarrow> string option \<times> Meta list" where
  "mt_UpdateRecycleState env mt indexBuildID =
     (if \<not> hasMeta mt indexBuildID then (Some ''there is no index with this IndexBuildID'', mt)
      else case env_UpdateRecycleStateErr env indexBuildID of
             Some e \<Rightarrow> (Some e, mt)
           | None \<Rightarrow> (None, updMeta indexBuildID (\<lambda>m. m\<lparr>Recycled := True\<rparr>) mt))"

record IndexInfo =
  ii_State :: IndexState
  ii_IndexBuildID :: UniqueID

text \<open>
  Modelled from the spec: \<open>metaTable.GetIndexStates\<close>, absent from the sources. It answers
  the state of each id, and \<open>IndexStateNone\<close> for an unknown id.
\<close>

definition mt_GetIndexStates :: "Meta list \<Rightarrow> UniqueID list \<Rightarrow> IndexInfo list" where
  "mt_GetIndexStates mt indexBuildIDs =
     map (\<lambda>b. case getMeta mt b of
                 None \<Rightarrow> \<lparr>ii_State = IndexStateNone, ii_IndexBuildID = b\<rparr>
               | Some m \<Rightarrow> \<lparr>ii_State = State (indexMeta m), ii_IndexBuildID = b\<rparr>) indexBuildIDs"

record IndexFilePathInfo =
  fp_IndexBuildID :: UniqueID
  fp_IndexFilePaths :: "string list"

text \<open>
  Modelled from the spec: \<open>metaTable.GetIndexFilePathInfo\<close>, absent from the sources. It
  fails unless the record exists and is \<open>Finished\<close>.
\<close>

definition GetIndexFilePathInfo :: "Meta list \<Rightarrow> UniqueID \<Rightarrow> string + IndexFilePathInfo" where
  "GetIndexFilePathInfo mt indexBuildID =
     (case getMeta mt indexBuildID of
        None \<Rightarrow> Inl ''there is no index with this IndexBuildID''
      | Some m \<Rightarrow>
          if State (indexMeta m) \<noteq> Finished then Inl ''index not finished''
          else Inr \<lparr>fp_IndexBuildID = indexBuildID,
                    fp_IndexFilePaths = IndexFilePaths (indexMeta m)\<rparr>)"

text \<open>
  Modelled from the spec: \<open>metaTable.GetUnassignedTasks\<close>, absent from the sources. It
  answers the records that are \<open>Unissued\<close>, or \<open>InProgress\<close> on a node that is not live.
\<close>

definition unassigned :: "UniqueID list \<Rightarrow> Meta \<Rightarrow> bool" where
  "unassigned serverIDs m =
     (State (indexMeta m) = Unissued
      \<or> (State (indexMeta m) = InProgress \<and> NodeID (indexMeta m) \<notin> set serverIDs))"

definition GetUnassignedTasks :: "Meta list \<Rightarrow> UniqueID list \<Rightarrow> Meta list" where
  "GetUnassignedTasks mt serverIDs = filter (unassigned serverIDs) mt"

text \<open>
  Modelled from the spec: \<open>metaTable.GetUnusedIndexFiles\<close>, absent from the sources. It
  answers up to \<open>limit\<close> records that are marked as deleted, or have a version above 1 and
  are not recycled.
\<close>

definition unused :: "Meta \<Rightarrow> bool" where
  "unused m =
     (MarkDeleted (indexMeta m)
      \<or> (1 < sint (Version (indexMeta m)) \<and> \<not> Recycled (indexMeta m)))"

definition GetUnusedIndexFiles :: "Meta list \<Rightarrow> nat \<Rightarrow> Meta list" where
  "GetUnusedIndexFiles mt limit = take limit (filter unused mt)"

section \<open>The node manager\<close>

text \<open>
  Modelled from the spec: \<open>NodeManager.PeekClient\<close>, absent from the sources. It answers
  the entry of lowest priority, the earliest inserted among equals, without removing it,
  and \<open>(0, nil)\<close> when there is none.
\<close>

fun PeekClient :: "NodeRecord list \<Rightarrow> UniqueID \<times> IndexNodeClient option" where
  "PeekClient [] = (0, None)"
| "PeekClient (n # ns) =
     (let m = fold (\<lambda>x b. if Priority x < Priority b then x else b) ns n
      in (ServerID m, Some (Client (ServerID m))))"

text \<open>
  Modelled from the spec: \<open>PriorityQueue.IncPriority\<close>, absent from the sources. It adjusts
  the priority of the node by \<open>delta\<close>.
\<close>

definition IncPriority :: "NodeRecord list \<Rightarrow> UniqueID \<Rightarrow> int \<Rightarrow> NodeRecord list" where
  "IncPriority nm nodeID delta =
     map (\<lambda>n. if ServerID n = nodeID then n\<lparr>Priority := Priority n + delta\<rparr> else n) nm"

section \<open>The client RPCs\<close>

definition taskLimit :: nat where
  "taskLimit = 20"

record BuildIndexResponse =
  bir_Status :: Status
  bir_IndexBuildID :: UniqueID

record IndexAddTask =
  t_req :: BuildIndexRequest
  t_indexBuildID :: UniqueID

text \<open>
  Modelled from the spec: \<open>IndexAddQueue.Enqueue\<close> and the admission it starts, absent
  from the sources. Section 4.3: a new id is allocated, the task is persisted through
  \<open>AddTask\<close>, and the admission is enqueued; a request that cannot be enqueued fails.
\<close>

definition Enqueue :: "Env \<Rightarrow> IndexAddTask \<Rightarrow> IndexCoord \<Rightarrow> string option \<times> IndexAddTask \<times> IndexCoord" where
  "Enqueue env t i =
     (let b = idAllocator i + 1;
          t1 = t\<lparr>t_indexBuildID := b\<rparr>;
          i1 = i\<lparr>idAllocator := b\<rparr>
      in case AddTask (metaTable i1) (t_req t1) b of
           (Some e, mt) \<Rightarrow> (Some e, t1, i1)
         | (None, mt) \<Rightarrow>
             (case env_EnqueueErr env of
                Some e \<Rightarrow> (Some e, t1, i1\<lparr>metaTable := mt\<rparr>)
              | None \<Rightarrow> (None, t1, i1\<lparr>metaTable := mt\<rparr>)))"

text \<open>
  Modelled from the spec: \<open>WaitToFinish\<close>, absent from the sources: the receipt on the
  completion channel of the admission, or the error surfaced there.
\<close>

definition WaitToFinish :: "Env \<Rightarrow> IndexAddTask \<Rightarrow> string option" where
  "WaitToFinish env t = env_WaitToFinishErr env"

definition BuildIndex ::
  "Env \<Rightarrow> BuildIndexRequest \<Rightarrow> IndexCoord \<Rightarrow> BuildIndexResponse rpc_result \<times> IndexCoord" where
  "BuildIndex env req i =
     (let (hasIndex, indexBuildID) = HasSameReq (metaTable i) req
      in if hasIndex then
           ((Some \<lparr>bir_Status = \<lparr>ErrorCode = ErrorCode_Success, Reason = ''already have same index''\<rparr>,
                   bir_IndexBuildID = indexBuildID\<rparr>, None), i)
         else
           let ret = \<lparr>bir_Status = \<lparr>ErrorCode = ErrorCode_UnexpectedError, Reason = []\<rparr>,
                      bir_IndexBuildID = 0\<rparr>;
               t = \<lparr>t_req = req, t_indexBuildID = 0\<rparr>;
               (err, t1, i1) = (if env_ctxDone env then (Some ''IndexAddQueue enqueue timeout'', t, i)
                                else Enqueue env t i)
           in case err of
                Some e \<Rightarrow>
                  ((Some (ret\<lparr>bir_Status := \<lparr>ErrorCode = ErrorCode_UnexpectedError, Reason = e\<rparr>\<rparr>), None), i1)
              | None \<Rightarrow>
                  (case WaitToFinish env t1 of
                     Some e \<Rightarrow>
                       ((Some (ret\<lparr>bir_Status := \<lparr>ErrorCode = ErrorCode_UnexpectedError, Reason = e\<rparr>\<rparr>), None), i1)
                   | None \<Rightarrow>
                       ((Some (ret\<lparr>bir_Status := (bir_Status ret)\<lparr>ErrorCode := ErrorCode_Success\<rparr>,
                                   bir_IndexBuildID := t_indexBuildID t1\<rparr>), None), i1)))"

record GetIndexStatesResponse =
  gis_Status :: Status
  gis_States :: "IndexInfo list"

definition GetIndexStates :: "UniqueID list \<Rightarrow> IndexCoord \<Rightarrow> GetIndexStatesResponse rpc_result" where
  "GetIndexStates indexBuildIDs i =
     (let indexStates = mt_GetIndexStates (metaTable i) indexBuildIDs;
          ret = \<lparr>gis_Status = \<lparr>ErrorCode = ErrorCode_Success, Reason = []\<rparr>,
                 gis_States = indexStates\<rparr>
      in (Some ret, None))"

text \<open>
  \<open>DropIndex\<close> marks the tasks of the index as deleted. Its deferred goroutine removes the
  admissions of the index that are still queued; \<open>BuildIndex\<close> above waits for its
  admission, so between two calls the queue is empty and the goroutine finds nothing.
\<close>

definition DropIndex :: "Env \<Rightarrow> UniqueID \<Rightarrow> IndexCoord \<Rightarrow> Status rpc_result \<times> IndexCoord" where
  "DropIndex env indexID i =
     (let ret = \<lparr>ErrorCode = ErrorCode_Success, Reason = []\<rparr>
      in case MarkIndexAsDeleted env (metaTable i) indexID of
           (Some e, mt) \<Rightarrow>
             ((Some (ret\<lparr>ErrorCode := ErrorCode_UnexpectedError, Reason := e\<rparr>), None), i)
         | (None, mt) \<Rightarrow> ((Some ret, None), i\<lparr>metaTable := mt\<rparr>))"

record GetIndexFilePathsResponse =
  gfp_Status :: Status
  gfp_FilePaths :: "IndexFilePathInfo list"

fun GetIndexFilePaths_loop ::
  "Meta list \<Rightarrow> UniqueID list \<Rightarrow> IndexFilePathInfo list \<Rightarrow> string + IndexFilePathInfo list" where
  "GetIndexFilePaths_loop mt [] indexPaths = Inr indexPaths"
| "GetIndexFilePaths_loop mt (indexID # rest) indexPaths =
     (case GetIndexFilePathInfo mt indexID of
        Inl err \<Rightarrow> Inl err
      | Inr indexPathInfo \<Rightarrow> GetIndexFilePaths_loop mt rest (indexPaths @ [indexPathInfo]))"

definition GetIndexFilePaths :: "UniqueID list \<Rightarrow> IndexCoord \<Rightarrow> GetIndexFilePathsResponse rpc_result" where
  "GetIndexFilePaths indexBuildIDs i =
     (case GetIndexFilePaths_loop (metaTable i) indexBuildIDs [] of
        Inl err \<Rightarrow> (None, Some err)
      | Inr indexPaths \<Rightarrow>
          (Some \<lparr>gfp_Status = \<lparr>ErrorCode = ErrorCode_Success, Reason = []\<rparr>,
                 gfp_FilePaths = indexPaths\<rparr>, None))"

text \<open>
  In \<open>GetMetrics\<close> the topology document of \<open>getSystemInfoMetrics\<close> is read from the
  environment; each of its returns carries a nil error.
\<close>

definition GetMetrics :: "Env \<Rightarrow> GetMetricsRequest \<Rightarrow> IndexCoord \<Rightarrow> GetMetricsResponse rpc_result" where
  "GetMetrics env req i =
     (if \<not> isHealthy i then
        (Some \<lparr>gmr_Status = \<lparr>ErrorCode = ErrorCode_UnexpectedError,
                            Reason = env_msgIndexCoordIsUnhealthy env (ID i)\<rparr>,
               gmr_Response = [], gmr_ComponentName = []\<rparr>, None)
      else case env_ParseMetricType env (gm_Request req) of
             Inl err \<Rightarrow>
               (Some \<lparr>gmr_Status = \<lparr>ErrorCode = ErrorCode_UnexpectedError, Reason = err\<rparr>,
                      gmr_Response = [], gmr_ComponentName = []\<rparr>, None)
           | Inr metricType \<Rightarrow>
               if metricType = env_SystemInfoMetrics env then
                 (Some (env_getSystemInfoMetrics env req), None)
               else
                 (Some \<lparr>gmr_Status = \<lparr>ErrorCode = ErrorCode_UnexpectedError,
                                     Reason = env_MsgUnimplementedMetric env\<rparr>,
                        gmr_Response = [], gmr_ComponentName = []\<rparr>, None))"

section \<open>Decimal rendering and sorting\<close>

text \<open>
  \<open>strconv.Itoa\<close> of the Go library: the decimal digits of an \<open>int\<close>, after a minus sign
  when it is negative.
\<close>

definition digitChar :: "nat \<Rightarrow> char" where
  "digitChar d = ''0123456789'' ! d"

fun digits :: "nat \<Rightarrow> string" where
  "digits n = (if n < 10 then [digitChar n] else digits (n div 10) @ [digitChar (n mod 10)])"

declare digits.simps [simp del]

definition Itoa :: "int \<Rightarrow> string" where
  "Itoa v = (if v < 0 then CHR ''-'' # digits (nat (- v)) else digits (nat v))"

text \<open>
  The contract of \<open>sort.Slice\<close> at a comparison and a slice: the result holds the elements
  of the slice, each as often as the slice does, and no element comes after one that the
  comparison puts strictly behind it. For a comparison that is a strict order this is what
  the library states (no element is less than one before it). The assignment loop passes
  the comparison \<open><=\<close>, which is not strict; the contract is read on its strict part, so
  that it says nothing on the order of tasks of equal version.
\<close>

definition sortSliceContract ::
  "(('a \<Rightarrow> 'a \<Rightarrow> bool) \<Rightarrow> 'a list \<Rightarrow> 'a list) \<Rightarrow> ('a \<Rightarrow> 'a \<Rightarrow> bool) \<Rightarrow> 'a list \<Rightarrow> bool" where
  "sortSliceContract srt lessFn xs =
     (mset (srt lessFn xs) = mset xs
      \<and> sorted_wrt (\<lambda>a b. \<not> (lessFn b a \<and> \<not> lessFn a b)) (srt lessFn xs))"

text \<open>
  One sort that meets the contract, for the concrete environments below: an insertion
  sort, in which each element moves towards the front while the comparison \<open>lessFn\<close> holds
  between it and the element before it. \<open>sink\<close> works on the sorted front part in reverse,
  the nearest element first.
\<close>

fun sink :: "('a \<Rightarrow> 'a \<Rightarrow> bool) \<Rightarrow> 'a \<Rightarrow> 'a list \<Rightarrow> 'a list" where
  "sink lessFn x [] = [x]"
| "sink lessFn x (y # ys) = (if lessFn x y then y # sink lessFn x ys else x # y # ys)"

definition sort_Slice :: "('a \<Rightarrow> 'a \<Rightarrow> bool) \<Rightarrow> 'a list \<Rightarrow> 'a list" where
  "sort_Slice lessFn xs = rev (fold (sink lessFn) xs [])"

section \<open>The assignment loop\<close>

definition assignTask :: "Env \<Rightarrow> IndexNodeClient \<Rightarrow> CreateIndexRequest \<Rightarrow> bool" where
  "assignTask env builderClient req =
     (case builderClient of
        Client n \<Rightarrow>
          (case env_CreateIndex env n req of
             Inl err \<Rightarrow> False
           | Inr resp \<Rightarrow> if ErrorCode resp \<noteq> ErrorCode_Success then False else True))"

text \<open>
  The request the loop builds for a task: the version it carries is one above the
  version of the record the loop holds.
\<close>

definition createIndexRequest :: "Meta \<Rightarrow> CreateIndexRequest" where
  "createIndexRequest meta =
     \<lparr>cir_IndexBuildID = IndexBuildID (indexMeta meta),
      cir_IndexName = req_IndexName (Req (indexMeta meta)),
      cir_IndexID = req_IndexID (Req (indexMeta meta)),
      cir_Version = Version (indexMeta meta) + 1,
      cir_MetaPath = ''/indexes/'' @ Itoa (sint (IndexBuildID (indexMeta meta))),
      cir_DataPaths = req_DataPaths (Req (indexMeta meta)),
      cir_TypeParams = req_TypeParams (Req (indexMeta meta)),
      cir_IndexParams = req_IndexParams (Req (indexMeta meta))\<rparr>"

text \<open>
  One pass of the body of \<open>for index, meta := range metas\<close>. It ends in \<open>Break\<close> where the
  body breaks out of the loop, and in \<open>Next\<close> where it reaches its end or continues.
\<close>

datatype Ctl = Next | Break

definition assignOne :: "Env \<Rightarrow> nat \<Rightarrow> Meta \<Rightarrow> IndexCoord \<Rightarrow> Ctl \<times> IndexCoord" where
  "assignOne env index meta i =
     (let indexBuildID = IndexBuildID (indexMeta meta);
          (err, mt1) = mt_UpdateVersion env (metaTable i) indexBuildID;
          i1 = i\<lparr>metaTable := mt1, calls := calls i @ [Call_UpdateVersion indexBuildID (err = None)]\<rparr>;
          (nodeID, builderClient) = PeekClient (nodeManager i1)
      in case builderClient of
           None \<Rightarrow> (Break, i1)
         | Some client \<Rightarrow>
             let req = createIndexRequest meta;
                 ok = assignTask env client req;
                 i2 = i1\<lparr>calls := calls i1 @ [Call_CreateIndex nodeID req ok]\<rparr>
             in if \<not> ok then (Next, i2)
                else
                  let (err2, mt2) = mt_BuildIndex env (metaTable i2) indexBuildID nodeID;
                      i3 = i2\<lparr>metaTable := mt2,
                              calls := calls i2 @ [Call_BuildIndex indexBuildID nodeID (err2 = None)]\<rparr>;
                      i4 = i3\<lparr>nodeManager := IncPriority (nodeManager i3) nodeID 1,
                              calls := calls i3 @ [Call_IncPriority nodeID 1]\<rparr>
                  in if index > taskLimit then (Break, i4) else (Next, i4))"

fun assignLoop :: "Env \<Rightarrow> nat \<Rightarrow> Meta list \<Rightarrow> IndexCoord \<Rightarrow> IndexCoord" where
  "assignLoop env index [] i = i"
| "assignLoop env index (meta # metas) i =
     (case assignOne env index meta i of
        (Break, i') \<Rightarrow> i'
      | (Next, i') \<Rightarrow> assignLoop env (Suc index) metas i')"

text \<open>
  The comparison the loop passes to \<open>sort.Slice\<close>:
  \<open>metas[i].indexMeta.Version <= metas[j].indexMeta.Version\<close>, on signed 64-bit versions.
\<close>

definition lessVersion :: "Meta \<Rightarrow> Meta \<Rightarrow> bool" where
  "lessVersion a b = (sint (Version (indexMeta a)) \<le> sint (Version (indexMeta b)))"

text \<open>
  The tasks of a tick of \<open>assignTaskLoop\<close>, in the order the loop visits them: the
  unassigned tasks, as \<open>sort.Slice\<close> leaves them.
\<close>

definition assignTaskMetas :: "Env \<Rightarrow> IndexCoord \<Rightarrow> Meta list" where
  "assignTaskMetas env i =
     env_sortSlice env lessVersion (GetUnassignedTasks (metaTable i) (env_sessions env))"

text \<open>The requests of the \<open>CreateIndex\<close> calls in a list of calls, in their order.\<close>

fun dispatched :: "Call list \<Rightarrow> CreateIndexRequest list" where
  "dispatched [] = []"
| "dispatched (Call_CreateIndex n req ok # cs) = req # dispatched cs"
| "dispatched (c # cs) = dispatched cs"

text \<open>The case \<open>timeTicker.C\<close> of \<open>assignTaskLoop\<close>: one tick.\<close>

definition assignTaskTick :: "Env \<Rightarrow> IndexCoord \<Rightarrow> IndexCoord" where
  "assignTaskTick env i =
     (if length (nodeManager i) \<le> 0 then i
      else assignLoop env 0 (assignTaskMetas env i) i)"

section \<open>The recycle loop\<close>

text \<open>The loop \<open>for j := 1; j < int(Version); j++\<close> over the versions below the current one.\<close>

function removeLowVersions :: "Env \<Rightarrow> UniqueID \<Rightarrow> int \<Rightarrow> int \<Rightarrow> IndexCoord \<Rightarrow> IndexCoord" where
  "removeLowVersions env indexBuildID j v i =
     (if j < v then
        let unusedIndexFilePathPrefix = Itoa (sint indexBuildID) @ ''/'' @ Itoa j;
            err = env_RemoveWithPrefix env unusedIndexFilePathPrefix
        in removeLowVersions env indexBuildID (j + 1) v
             (i\<lparr>calls := calls i @ [Call_RemoveWithPrefix unusedIndexFilePathPrefix (err = None)]\<rparr>)
      else i)"
  by pat_completeness auto
termination
  by (relation "measure (\<lambda>(env, indexBuildID, j, v, i). nat (v - j))") auto

declare removeLowVersions.simps [simp del]

text \<open>One pass of the body of \<open>for _, meta := range metas\<close> in \<open>recycleUnusedIndexFiles\<close>.\<close>

definition recycleOne :: "Env \<Rightarrow> Meta \<Rightarrow> IndexCoord \<Rightarrow> IndexCoord" where
  "recycleOne env meta i =
     (if MarkDeleted (indexMeta meta) then
        let unusedIndexFilePathPrefix = Itoa (sint (IndexBuildID (indexMeta meta)));
            err = env_RemoveWithPrefix env unusedIndexFilePathPrefix;
            i1 = i\<lparr>calls := calls i @ [Call_RemoveWithPrefix unusedIndexFilePathPrefix (err = None)]\<rparr>
        in i1\<lparr>metaTable := mt_DeleteIndex (metaTable i1) (IndexBuildID (indexMeta meta)),
              calls := calls i1 @ [Call_DeleteIndex (IndexBuildID (indexMeta meta))]\<rparr>
      else
        let i1 = removeLowVersions env (IndexBuildID (indexMeta meta)) 1
                   (sint (Version (indexMeta meta))) i;
            (err, mt) = mt_UpdateRecycleState env (metaTable i1) (IndexBuildID (indexMeta meta))
        in i1\<lparr>metaTable := mt,
              calls := calls i1 @ [Call_UpdateRecycleState (IndexBuildID (indexMeta meta)) (err = None)]\<rparr>)"

text \<open>
  The ids of the records that still wait for the recycle loop: those that
  \<open>GetUnusedIndexFiles\<close> selects when no limit cuts its answer.
\<close>

definition unrecycled :: "Meta list \<Rightarrow> UniqueID set" where
  "unrecycled mt = set (map (\<lambda>m. IndexBuildID (indexMeta m)) (filter unused mt))"

text \<open>The case \<open>timeTicker.C\<close> of \<open>recycleUnusedIndexFiles\<close>: one tick.\<close>

definition recycleTick :: "Env \<Rightarrow> IndexCoord \<Rightarrow> IndexCoord" where
  "recycleTick env i = fold (recycleOne env) (GetUnusedIndexFiles (metaTable i) taskLimit) i"

text \<open>
  Modelled from the spec: \<open>RemoveWithPrefix\<close> of the blob store (package \<open>miniokv\<close>), absent
  from the sources. The glossary gives the store a prefix-scoped delete, and section 6 the
  layout \<open>{IndexBuildID}/{Version}/...\<close> of its keys: the call removes every key that
  starts with the prefix.
\<close>

definition kv_RemoveWithPrefix :: "string \<Rightarrow> string list \<Rightarrow> string list" where
  "kv_RemoveWithPrefix p keys = filter (\<lambda>k. \<not> prefix p k) keys"

text \<open>
  The keys of the blob store after the calls the coordinator has made on it: each
  \<open>RemoveWithPrefix\<close> that returned no error has removed its keys, in the order of the
  calls; a call that returned an error has removed none.
\<close>

fun blobsAfter :: "Call list \<Rightarrow> string list \<Rightarrow> string list" where
  "blobsAfter [] keys = keys"
| "blobsAfter (Call_RemoveWithPrefix p ok # cs) keys =
     blobsAfter cs (if ok then kv_RemoveWithPrefix p keys else keys)"
| "blobsAfter (c # cs) keys = blobsAfter cs keys"

section \<open>The coordinator between two calls\<close>

text \<open>
  The fields of a record that neither loop changes: its id, the mark of a dropped index,
  and the request.
\<close>

definition recordKey :: "Meta \<Rightarrow> UniqueID \<times> bool \<times> BuildIndexRequest" where
  "recordKey m = (IndexBuildID (indexMeta m), MarkDeleted (indexMeta m), Req (indexMeta m))"

text \<open>The table is a Go map keyed by \<open>IndexBuildID\<close>: no two of its records share an id.\<close>

definition distinctIDs :: "Meta list \<Rightarrow> bool" where
  "distinctIDs mt = distinct (map (\<lambda>m. IndexBuildID (indexMeta m)) mt)"

text \<open>
  For each record of \<open>metas\<close> that is marked as deleted, every record of the table with its
  id is marked as deleted too.
\<close>

definition deletable :: "Meta list \<Rightarrow> Meta list \<Rightarrow> bool" where
  "deletable metas mt =
     (\<forall>meta\<in>set metas. MarkDeleted (indexMeta meta) \<longrightarrow>
        (\<forall>k\<in>set (map recordKey mt). fst k = IndexBuildID (indexMeta meta) \<longrightarrow> fst (snd k)))"

text \<open>
  What may happen to the coordinator between two calls of \<open>BuildIndex\<close> when no index is
  dropped: other calls of \<open>BuildIndex\<close>, ticks of the two loops, and changes of the state
  code.
\<close>

datatype Event =
    Ev_BuildIndex Env BuildIndexRequest
  | Ev_assignTaskTick Env
  | Ev_recycleTick Env
  | Ev_UpdateStateCode StateCode

fun applyEvent :: "Event \<Rightarrow> IndexCoord \<Rightarrow> IndexCoord" where
  "applyEvent (Ev_BuildIndex env req) i = snd (BuildIndex env req i)"
| "applyEvent (Ev_assignTaskTick env) i = assignTaskTick env i"
| "applyEvent (Ev_recycleTick env) i = recycleTick env i"
| "applyEvent (Ev_UpdateStateCode code) i = UpdateStateCode code i"

section \<open>Concrete coordinators and environments\<close>

text \<open>
  Scenario S1 of the specification asks for an index with \<open>IndexID = 7\<close> over the data
  paths \<open>/a\<close> and \<open>/b\<close>.
\<close>

definition req7 :: BuildIndexRequest where
  "req7 = \<lparr>req_IndexBuildID = 0, req_IndexName = ''idx'', req_IndexID = 7,
           req_DataPaths = [''/a'', ''/b''], req_TypeParams = [], req_IndexParams = []\<rparr>"

text \<open>An unissued task for that request, with the given id and version.\<close>

definition task :: "UniqueID \<Rightarrow> 64 word \<Rightarrow> Meta" where
  "task b v = \<lparr>indexMeta = \<lparr>IndexBuildID = b, State = Unissued, Version = v, NodeID = 0,
                             MarkDeleted = False, Recycled = False, IndexFilePaths = [],
                             Req = req7\<rparr>\<rparr>"

text \<open>The same task once it is in progress on a node, and once its index is dropped.\<close>

definition inProgress :: "UniqueID \<Rightarrow> 64 word \<Rightarrow> UniqueID \<Rightarrow> Meta" where
  "inProgress b v n = \<lparr>indexMeta = (indexMeta (task b v))\<lparr>State := InProgress, NodeID := n\<rparr>\<rparr>"

definition deleted :: "UniqueID \<Rightarrow> 64 word \<Rightarrow> Meta" where
  "deleted b v = \<lparr>indexMeta = (indexMeta (task b v))\<lparr>MarkDeleted := True\<rparr>\<rparr>"

text \<open>Twenty-two unissued tasks, with the ids 1 to 22.\<close>

definition tasks22 :: "Meta list" where
  "tasks22 = map (\<lambda>k. task (of_nat k) 0) [1..<23]"

text \<open>A healthy coordinator with the worker 3 and the given metadata table.\<close>

definition coord :: "Meta list \<Rightarrow> IndexCoord" where
  "coord mt = \<lparr>stateCode = StateCode_Healthy, ID = 1, metaTable = mt,
              nodeManager = [\<lparr>ServerID = 3, Priority = 0\<rparr>], idAllocator = 100, calls = []\<rparr>"

text \<open>
  The environment in which the worker 3 is live and every call succeeds; its sort is the
  insertion sort.
\<close>

definition env_ok :: Env where
  "env_ok = \<lparr>env_sessions = [3],
             env_CreateIndex = (\<lambda>n req. Inr \<lparr>ErrorCode = ErrorCode_Success, Reason = []\<rparr>),
             env_RemoveWithPrefix = (\<lambda>p. None),
             env_UpdateVersionErr = (\<lambda>b. None),
             env_BuildIndexErr = (\<lambda>b. None),
             env_UpdateRecycleStateErr = (\<lambda>b. None),
             env_MarkIndexAsDeletedErr = (\<lambda>b. None),
             env_ctxDone = False,
             env_EnqueueErr = None,
             env_WaitToFinishErr = None,
             env_msgIndexCoordIsUnhealthy = (\<lambda>b. ''index coord is not ready''),
             env_ParseMetricType = (\<lambda>r. Inr r),
             env_SystemInfoMetrics = ''system_info'',
             env_MsgUnimplementedMetric = ''metric type is not implemented'',
             env_getSystemInfoMetrics =
               (\<lambda>r. \<lparr>gmr_Status = \<lparr>ErrorCode = ErrorCode_Success, Reason = []\<rparr>,
                      gmr_Response = ''{}'', gmr_ComponentName = ''IndexCoord-1''\<rparr>),
             env_sortSlice = sort_Slice\<rparr>"

text \<open>The same, with a worker that cannot be reached, a registry that reports a conflict
  on \<open>UpdateVersion\<close>, and a blob store that fails.\<close>

definition env_rpc_down :: Env where
  "env_rpc_down = env_ok\<lparr>env_CreateIndex := (\<lambda>n req. Inl ''connection refused'')\<rparr>"

definition env_conflict :: Env where
  "env_conflict = env_ok\<lparr>env_UpdateVersionErr := (\<lambda>b. Some ''conflict'')\<rparr>"

definition env_blob_down :: Env where
  "env_blob_down = env_ok\<lparr>env_RemoveWithPrefix := (\<lambda>p. Some ''blob store unavailable'')\<rparr>"

section \<open>Facts about the decimal rendering\<close>

lemma digitChar_inj: "a < 10 \<Longrightarrow> b < 10 \<Longrightarrow> digitChar a = digitChar b \<Longrightarrow> a = b"
proof -
  assume a: "a < 10" and b: "b < 10" and e: "digitChar a = digitChar b"
  have d: "distinct ''0123456789''" by simp
  have "length ''0123456789'' = 10" by simp
  with a b e d show "a = b"
    unfolding digitChar_def by (metis nth_eq_iff_index_eq)
qed

lemma digitChar_not_minus: "d < 10 \<Longrightarrow> digitChar d \<noteq> CHR ''-''"
proof -
  assume "d < 10"
  moreover have "length ''0123456789'' = 10" by simp
  ultimately have "d < length ''0123456789''" by simp
  then have "''0123456789'' ! d \<in> set ''0123456789''" by (rule nth_mem)
  then show ?thesis unfolding digitChar_def by auto
qed

lemma digits_not_Nil: "digits n \<noteq> []"
  by (subst digits.simps) simp

lemma digits_no_minus: "CHR ''-'' \<notin> set (digits n)"
proof (induction n rule: digits.induct)
  case (1 n)
  show ?case
  proof (cases "n < 10")
    case True
    then show ?thesis using digitChar_not_minus [of n] by (subst digits.simps) auto
  next
    case False
    have "n mod 10 < 10" by simp
    then have "digitChar (n mod 10) \<noteq> CHR ''-''" by (rule digitChar_not_minus)
    with False "1.IH" show ?thesis by (subst digits.simps) auto
  qed
qed

lemma digits_inj: "digits a = digits b \<Longrightarrow> a = b"
proof (induction a arbitrary: b rule: digits.induct)
  case (1 a)
  show ?case
  proof (cases "a < 10")
    case True
    then have da: "digits a = [digitChar a]" by (subst digits.simps) simp
    show ?thesis
    proof (cases "b < 10")
      case bs: True
      then have "digits b = [digitChar b]" by (subst digits.simps) simp
      with da "1.prems" have "digitChar a = digitChar b" by simp
      with True bs show ?thesis by (rule digitChar_inj)
    next
      case bl: False
      then have "digits b = digits (b div 10) @ [digitChar (b mod 10)]" by (subst digits.simps) simp
      with da "1.prems" digits_not_Nil [of "b div 10"] show ?thesis by simp
    qed
  next
    case False
    then have da: "digits a = digits (a div 10) @ [digitChar (a mod 10)]" by (subst digits.simps) simp
    show ?thesis
    proof (cases "b < 10")
      case bs: True
      then have "digits b = [digitChar b]" by (subst digits.simps) simp
      with da "1.prems" digits_not_Nil [of "a div 10"] show ?thesis by simp
    next
      case bl: False
      then have db: "digits b = digits (b div 10) @ [digitChar (b mod 10)]" by (subst digits.simps) simp
      from da db "1.prems" have e1: "digits (a div 10) = digits (b div 10)"
        and e2: "digitChar (a mod 10) = digitChar (b mod 10)" by auto
      from "1.IH" [OF False e1] have "a div 10 = b div 10" .
      moreover have "a mod 10 < 10" and "b mod 10 < 10" by simp_all
      then have "a mod 10 = b mod 10" using e2 by (rule digitChar_inj)
      ultimately show ?thesis by (metis div_mult_mod_eq)
    qed
  qed
qed

lemma Itoa_inj: "Itoa a = Itoa b \<Longrightarrow> a = b"
proof -
  assume e: "Itoa a = Itoa b"
  have hd_ne: "\<And>n. hd (digits n) \<noteq> CHR ''-''"
    using digits_no_minus digits_not_Nil by (metis hd_in_set)
  show "a = b"
  proof (cases "a < 0")
    case an: True
    show ?thesis
    proof (cases "b < 0")
      case True
      with an e have "digits (nat (- a)) = digits (nat (- b))" by (simp add: Itoa_def)
      then have "nat (- a) = nat (- b)" by (rule digits_inj)
      with an True show ?thesis by simp
    next
      case False
      with an e have "CHR ''-'' # digits (nat (- a)) = digits (nat b)" by (simp add: Itoa_def)
      then have "hd (digits (nat b)) = CHR ''-''" by (metis list.sel(1))
      with hd_ne show ?thesis by blast
    qed
  next
    case ap: False
    show ?thesis
    proof (cases "b < 0")
      case True
      with ap e have "digits (nat a) = CHR ''-'' # digits (nat (- b))" by (simp add: Itoa_def)
      then have "hd (digits (nat a)) = CHR ''-''" by (metis list.sel(1))
      with hd_ne show ?thesis by blast
    next
      case False
      with ap e have "digits (nat a) = digits (nat b)" by (simp add: Itoa_def)
      then have "nat a = nat b" by (rule digits_inj)
      with ap False show ?thesis by simp
    qed
  qed
qed

section \<open>Facts about the sort and the dispatched requests\<close>

lemma dispatched_append: "dispatched (xs @ ys) = dispatched xs @ dispatched ys"
  by (induction xs rule: dispatched.induct) auto

lemma set_sink: "set (sink lessFn x ys) = insert x (set ys)"
  by (induction ys) auto

lemma length_sink: "length (sink lessFn x ys) = Suc (length ys)"
  by (induction ys) auto



lemma set_fold_sink: "set (fold (sink lessFn) xs acc) = set xs \<union> set acc"
  by (induction xs arbitrary: acc) (auto simp: set_sink)

lemma length_fold_sink: "length (fold (sink lessFn) xs acc) = length xs + length acc"
  by (induction xs arbitrary: acc) (auto simp: length_sink)


lemma set_sort_Slice: "set (sort_Slice lessFn xs) = set xs"
  by (simp add: sort_Slice_def set_fold_sink)

lemma length_sort_Slice: "length (sort_Slice lessFn xs) = length xs"
  by (simp add: sort_Slice_def length_fold_sink)








text \<open>
  For a comparison that never holds in both directions, the contract is the library's own
  notion of a sorted slice: no element is less than one before it.
\<close>

lemma contract_strict:
  assumes "\<And>a b. lessFn a b \<Longrightarrow> \<not> lessFn b a"
  shows "sortSliceContract srt lessFn xs
     \<longleftrightarrow> mset (srt lessFn xs) = mset xs \<and> sorted_wrt (\<lambda>a b. \<not> lessFn b a) (srt lessFn xs)"
proof -
  have "(\<lambda>a b. \<not> (lessFn b a \<and> \<not> lessFn a b)) = (\<lambda>a b. \<not> lessFn b a)"
    using assms by (auto simp: fun_eq_iff)
  then show ?thesis by (simp add: sortSliceContract_def)
qed





section \<open>A failed worker call\<close>

lemma updMeta_version_rel:
  "list_all2 (\<lambda>m m'. m' = m \<or> (IndexBuildID (indexMeta m) = b
        \<and> m' = m\<lparr>indexMeta := (indexMeta m)\<lparr>Version := Version (indexMeta m) + 1\<rparr>\<rparr>))
     mt (updMeta b (\<lambda>m. m\<lparr>Version := Version m + 1\<rparr>) mt)"
  by (induction mt) (auto simp: updMeta_def)

lemma mt_UpdateVersion_rel:
  "list_all2 (\<lambda>m m'. m' = m \<or> (IndexBuildID (indexMeta m) = b
        \<and> m' = m\<lparr>indexMeta := (indexMeta m)\<lparr>Version := Version (indexMeta m) + 1\<rparr>\<rparr>))
     mt (snd (mt_UpdateVersion env mt b))"
  using updMeta_version_rel [of b mt]
  by (auto simp: mt_UpdateVersion_def list.rel_refl split: option.splits)

lemma mt_UpdateVersion_unassigned:
  "map (\<lambda>m. IndexBuildID (indexMeta m)) (GetUnassignedTasks (snd (mt_UpdateVersion env mt b)) ids)
   = map (\<lambda>m. IndexBuildID (indexMeta m)) (GetUnassignedTasks mt ids)"
proof -
  have "map (\<lambda>m. IndexBuildID (indexMeta m)) (filter (unassigned ids) (updMeta b (\<lambda>m. m\<lparr>Version := Version m + 1\<rparr>) mt))
      = map (\<lambda>m. IndexBuildID (indexMeta m)) (filter (unassigned ids) mt)"
    by (induction mt) (auto simp: updMeta_def unassigned_def)
  then show ?thesis
    by (auto simp: mt_UpdateVersion_def GetUnassignedTasks_def split: option.splits)
qed

lemma assignOne_fail:
  assumes "PeekClient (nodeManager i) = (nodeID, Some client)"
      and "\<not> assignTask env client (createIndexRequest meta)"
  shows "assignOne env index meta i =
           (Next, i\<lparr>metaTable := snd (mt_UpdateVersion env (metaTable i) (IndexBuildID (indexMeta meta))),
                    calls := calls i @ [Call_UpdateVersion (IndexBuildID (indexMeta meta))
                                          (fst (mt_UpdateVersion env (metaTable i) (IndexBuildID (indexMeta meta))) = None),
                                        Call_CreateIndex nodeID (createIndexRequest meta) False]\<rparr>)"
  using assms by (simp add: assignOne_def Let_def split: prod.splits)

lemma assignTask_failure:
  "env_CreateIndex env n req = Inl err
   \<or> (env_CreateIndex env n req = Inr resp \<and> ErrorCode resp \<noteq> ErrorCode_Success)
   \<Longrightarrow> \<not> assignTask env (Client n) req"
  by (auto simp: assignTask_def)

text \<open>
  C3. In a pass of the assignment loop in which a worker is chosen and its \<open>CreateIndex\<close>
  fails (a transport error, or a response whose error code is not \<open>Success\<close>), the pass goes
  on to the next task: it calls neither \<open>BuildIndex\<close> nor \<open>IncPriority\<close>, the node manager
  is as it was, and the metadata table is the one \<open>UpdateVersion\<close> left, so that the version
  of the task is the old one or one above it and no other field of any record has changed.
  The unassigned tasks are the same as before the pass, and the task is among them on a
  later tick.
\<close>

theorem failed_CreateIndex_skips_task:
  assumes "PeekClient (nodeManager i) = (nodeID, Some (Client n))"
      and "env_CreateIndex env n (createIndexRequest meta) = Inl err
           \<or> (env_CreateIndex env n (createIndexRequest meta) = Inr resp
               \<and> ErrorCode resp \<noteq> ErrorCode_Success)"
  shows "fst (assignOne env index meta i) = Next
     \<and> assignLoop env index (meta # metas) i
         = assignLoop env (Suc index) metas (snd (assignOne env index meta i))
     \<and> calls (snd (assignOne env index meta i))
         = calls i @ [Call_UpdateVersion (IndexBuildID (indexMeta meta))
                        (fst (mt_UpdateVersion env (metaTable i) (IndexBuildID (indexMeta meta))) = None),
                      Call_CreateIndex nodeID (createIndexRequest meta) False]
     \<and> nodeManager (snd (assignOne env index meta i)) = nodeManager i
     \<and> metaTable (snd (assignOne env index meta i))
         = snd (mt_UpdateVersion env (metaTable i) (IndexBuildID (indexMeta meta)))
     \<and> list_all2 (\<lambda>m m'. m' = m \<or> (IndexBuildID (indexMeta m) = IndexBuildID (indexMeta meta)
            \<and> m' = m\<lparr>indexMeta := (indexMeta m)\<lparr>Version := Version (indexMeta m) + 1\<rparr>\<rparr>))
         (metaTable i) (metaTable (snd (assignOne env index meta i)))
     \<and> map (\<lambda>m. IndexBuildID (indexMeta m))
         (GetUnassignedTasks (metaTable (snd (assignOne env index meta i))) serverIDs)
         = map (\<lambda>m. IndexBuildID (indexMeta m)) (GetUnassignedTasks (metaTable i) serverIDs)"
  using assignOne_fail [OF assms(1) assignTask_failure [OF assms(2)], of index]
    mt_UpdateVersion_rel [of "IndexBuildID (indexMeta meta)" "metaTable i" env]
    mt_UpdateVersion_unassigned [of env "metaTable i" "IndexBuildID (indexMeta meta)" serverIDs]
  by simp

text \<open>The theorem at task 5 and a worker that refuses the connection.\<close>

theorem failed_CreateIndex_skips_task_witness:
  "PeekClient (nodeManager (coord [task 5 0])) = (3, Some (Client 3))
   \<and> env_CreateIndex env_rpc_down 3 (createIndexRequest (task 5 0)) = Inl ''connection refused''
   \<and> assignOne env_rpc_down 0 (task 5 0) (coord [task 5 0])
       = (Next, (coord [task 5 1])\<lparr>calls := [Call_UpdateVersion 5 True,
                   Call_CreateIndex 3 (createIndexRequest (task 5 0)) False]\<rparr>)"
proof -
  have p: "PeekClient (nodeManager (coord [task 5 0])) = (3, Some (Client 3))"
    by (simp add: coord_def)
  have r: "env_CreateIndex env_rpc_down 3 (createIndexRequest (task 5 0)) = Inl ''connection refused''"
    by (simp add: env_rpc_down_def)
  then have f: "env_CreateIndex env_rpc_down 3 (createIndexRequest (task 5 0)) = Inl ''connection refused''
           \<or> (env_CreateIndex env_rpc_down 3 (createIndexRequest (task 5 0)) = Inr resp
               \<and> ErrorCode resp \<noteq> ErrorCode_Success)" for resp
    by simp
  have u: "mt_UpdateVersion env_rpc_down [task 5 0] 5 = (None, [task 5 1])"
    by (simp add: mt_UpdateVersion_def hasMeta_def updMeta_def task_def env_rpc_down_def env_ok_def)
  have e: "s = (fst s, snd s)" for s :: "Ctl \<times> IndexCoord" by simp
  from failed_CreateIndex_skips_task [OF p f, of 0 "[]" "[3]"] u
  have "fst (assignOne env_rpc_down 0 (task 5 0) (coord [task 5 0])) = Next"
    and "calls (snd (assignOne env_rpc_down 0 (task 5 0) (coord [task 5 0])))
         = [Call_UpdateVersion 5 True, Call_CreateIndex 3 (createIndexRequest (task 5 0)) False]"
    and "nodeManager (snd (assignOne env_rpc_down 0 (task 5 0) (coord [task 5 0]))) = nodeManager (coord [task 5 0])"
    and "metaTable (snd (assignOne env_rpc_down 0 (task 5 0) (coord [task 5 0]))) = [task 5 1]"
    by (simp_all add: coord_def task_def)
  moreover have "stateCode (snd (assignOne env_rpc_down 0 (task 5 0) (coord [task 5 0]))) = StateCode_Healthy"
    and "ID (snd (assignOne env_rpc_down 0 (task 5 0) (coord [task 5 0]))) = 1"
    and "idAllocator (snd (assignOne env_rpc_down 0 (task 5 0) (coord [task 5 0]))) = 100"
    using p assignTask_failure [OF f]
    by (simp_all add: assignOne_def Let_def coord_def split: prod.splits)
  ultimately have "assignOne env_rpc_down 0 (task 5 0) (coord [task 5 0])
       = (Next, (coord [task 5 1])\<lparr>calls := [Call_UpdateVersion 5 True,
                   Call_CreateIndex 3 (createIndexRequest (task 5 0)) False]\<rparr>)"
    by (subst e) (simp add: coord_def)
  with p r show ?thesis by simp
qed

section \<open>The bound of a tick, conflicts, and the health gate\<close>

lemma PeekClient_nonempty: "nm \<noteq> [] \<Longrightarrow> \<exists>n. PeekClient nm = (n, Some (Client n))"
  by (cases nm) (simp_all add: Let_def)

lemma IncPriority_nonempty: "nm \<noteq> [] \<Longrightarrow> IncPriority nm n d \<noteq> []"
  by (simp add: IncPriority_def)

lemma assignOne_ok:
  assumes ok: "\<And>n req. assignTask env (Client n) req" and ne: "nodeManager i \<noteq> []"
  shows "fst (assignOne env index meta i) = (if index > taskLimit then Break else Next)
       \<and> nodeManager (snd (assignOne env index meta i)) \<noteq> []
       \<and> length (dispatched (calls (snd (assignOne env index meta i)))) = Suc (length (dispatched (calls i)))"
proof -
  from PeekClient_nonempty [OF ne] obtain n where n: "PeekClient (nodeManager i) = (n, Some (Client n))" by blast
  with ok [of n "createIndexRequest meta"] ne show ?thesis
    by (simp add: assignOne_def Let_def dispatched_append IncPriority_def split: prod.splits)
qed

lemma assignLoop_ok:
  assumes ok: "\<And>n req. assignTask env (Client n) req"
  shows "nodeManager i \<noteq> [] \<Longrightarrow> index \<le> Suc taskLimit \<Longrightarrow>
     length (dispatched (calls (assignLoop env index metas i)))
       = length (dispatched (calls i)) + min (length metas) (taskLimit + 2 - index)"
proof (induction metas arbitrary: index i)
  case Nil
  then show ?case by simp
next
  case (Cons meta metas)
  obtain c i' where one: "assignOne env index meta i = (c, i')" by (cases "assignOne env index meta i")
  from assignOne_ok [of env i index meta, OF ok Cons.prems(1)] one
  have c: "c = (if index > taskLimit then Break else Next)" and ne': "nodeManager i' \<noteq> []"
    and len: "length (dispatched (calls i')) = Suc (length (dispatched (calls i)))" by simp_all
  show ?case
  proof (cases "index > taskLimit")
    case True
    with c one have "assignLoop env index (meta # metas) i = i'" by simp
    with len True Cons.prems(2) show ?thesis by simp
  next
    case False
    with c one have "assignLoop env index (meta # metas) i = assignLoop env (Suc index) metas i'" by simp
    moreover from False have "Suc index \<le> Suc taskLimit" by simp
    from Cons.IH [OF ne' this]
    have "length (dispatched (calls (assignLoop env (Suc index) metas i')))
       = length (dispatched (calls i')) + min (length metas) (taskLimit + 2 - Suc index)" .
    ultimately show ?thesis using len False by simp
  qed
qed

lemma env_ok_assignTask: "assignTask env_ok (Client n) req"
  by (simp add: assignTask_def env_ok_def)

lemma length_metas22: "length (assignTaskMetas env_ok (coord tasks22)) = 22"
proof -
  have "filter (unassigned ids) (map (\<lambda>k. task (of_nat k) 0) ks) = map (\<lambda>k. task (of_nat k) 0) ks" for ids ks
    by (induction ks) (simp_all add: unassigned_def task_def)
  then show ?thesis
    by (simp add: assignTaskMetas_def env_ok_def length_sort_Slice GetUnassignedTasks_def coord_def
        tasks22_def)
qed

text \<open>
  C5. With twenty-two unassigned tasks, one worker and every call succeeding, one tick of the
  assignment loop dispatches all twenty-two tasks, two more than \<open>taskLimit\<close>: the loop tests
  \<open>index > taskLimit\<close> after the pass at \<open>index\<close>.
\<close>

theorem assignTaskTick_dispatches_22:
  "length (dispatched (calls (assignTaskTick env_ok (coord tasks22)))) = 22 \<and> taskLimit = 20"
proof -
  have ne: "nodeManager (coord tasks22) \<noteq> []" by (simp add: coord_def)
  have "length (dispatched (calls (assignLoop env_ok 0 (assignTaskMetas env_ok (coord tasks22)) (coord tasks22))))
      = length (dispatched (calls (coord tasks22))) + min (length (assignTaskMetas env_ok (coord tasks22))) (taskLimit + 2 - 0)"
    by (rule assignLoop_ok [OF env_ok_assignTask ne]) simp
  moreover have "calls (coord tasks22) = []" by (simp add: coord_def)
  ultimately show ?thesis using ne
    by (simp add: assignTaskTick_def length_metas22 taskLimit_def)
qed

text \<open>
  C6. When \<open>UpdateVersion\<close> reports a conflict for a task, the same pass of the assignment
  loop goes on: it sends \<open>CreateIndex\<close> for the task with the version the registry refused,
  records \<open>BuildIndex\<close> and increments the priority of the worker.
\<close>

theorem UpdateVersion_conflict_still_dispatches:
  "assignTaskTick env_conflict (coord [task 5 0]) =
     (coord [inProgress 5 0 3])
       \<lparr>nodeManager := [\<lparr>ServerID = 3, Priority = 1\<rparr>],
        calls := [Call_UpdateVersion 5 False,
                  Call_CreateIndex 3 (createIndexRequest (task 5 0)) True,
                  Call_BuildIndex 5 3 True,
                  Call_IncPriority 3 1]\<rparr>"
  by (simp add: assignTaskTick_def assignTaskMetas_def sort_Slice_def lessVersion_def
      GetUnassignedTasks_def
      unassigned_def coord_def task_def inProgress_def env_conflict_def env_ok_def assignOne_def
      mt_UpdateVersion_def mt_BuildIndex_def hasMeta_def updMeta_def assignTask_def
      IncPriority_def taskLimit_def Let_def)

text \<open>
  C7. \<open>GetIndexFilePaths\<close> on a task that is not finished, or on an unknown id, returns
  a nil response and a Go error: no response carries the failure in its status.
\<close>

theorem GetIndexFilePaths_returns_go_error:
  "GetIndexFilePaths [5] (coord [task 5 0]) = (None, Some ''index not finished'')
   \<and> GetIndexFilePaths [6] (coord [task 5 0]) = (None, Some ''there is no index with this IndexBuildID'')"
  by (simp add: GetIndexFilePaths_def GetIndexFilePathInfo_def getMeta_def coord_def task_def)

lemma GetMetrics_unhealthy:
  "\<not> isHealthy i \<Longrightarrow> GetMetrics env req i =
     (Some \<lparr>gmr_Status = \<lparr>ErrorCode = ErrorCode_UnexpectedError,
                          Reason = env_msgIndexCoordIsUnhealthy env (ID i)\<rparr>,
            gmr_Response = [], gmr_ComponentName = []\<rparr>, None)"
  by (simp add: GetMetrics_def)

text \<open>
  C2. In a coordinator whose state code is \<open>Abnormal\<close>, \<open>GetIndexStates\<close>, \<open>BuildIndex\<close>,
  \<open>DropIndex\<close> and \<open>GetIndexFilePaths\<close> do their work and answer \<open>Success\<close>; only
  \<open>GetMetrics\<close> tests \<open>isHealthy\<close>.
\<close>

theorem rpcs_ignore_unhealthy_state:
  "\<not> isHealthy (UpdateStateCode StateCode_Abnormal (coord [task 5 0]))
   \<and> GetIndexStates [5] (UpdateStateCode StateCode_Abnormal (coord [task 5 0]))
       = (Some \<lparr>gis_Status = \<lparr>ErrorCode = ErrorCode_Success, Reason = []\<rparr>,
                gis_States = [\<lparr>ii_State = Unissued, ii_IndexBuildID = 5\<rparr>]\<rparr>, None)
   \<and> fst (BuildIndex env_ok req7 (UpdateStateCode StateCode_Abnormal (coord [task 5 0])))
       = (Some \<lparr>bir_Status = \<lparr>ErrorCode = ErrorCode_Success, Reason = ''already have same index''\<rparr>,
                bir_IndexBuildID = 5\<rparr>, None)
   \<and> fst (BuildIndex env_ok req7 (UpdateStateCode StateCode_Abnormal (coord [])))
       = (Some \<lparr>bir_Status = \<lparr>ErrorCode = ErrorCode_Success, Reason = []\<rparr>,
                bir_IndexBuildID = 101\<rparr>, None)
   \<and> fst (DropIndex env_ok 7 (UpdateStateCode StateCode_Abnormal (coord [task 5 0])))
       = (Some \<lparr>ErrorCode = ErrorCode_Success, Reason = []\<rparr>, None)
   \<and> GetIndexFilePaths [] (UpdateStateCode StateCode_Abnormal (coord [task 5 0]))
       = (Some \<lparr>gfp_Status = \<lparr>ErrorCode = ErrorCode_Success, Reason = []\<rparr>, gfp_FilePaths = []\<rparr>, None)"
  by (simp add: isHealthy_def UpdateStateCode_def coord_def task_def req7_def env_ok_def
      GetIndexStates_def mt_GetIndexStates_def getMeta_def BuildIndex_def HasSameReq_def
      sameRequest_def fingerprint_def Enqueue_def AddTask_def hasMeta_def WaitToFinish_def DropIndex_def
      MarkIndexAsDeleted_def GetIndexFilePaths_def Let_def)

section \<open>The recycle loop: stale versions and deleted records\<close>

lemma removeLowVersions_eq:
  "removeLowVersions env b j v i =
     i\<lparr>calls := calls i @ map (\<lambda>k. Call_RemoveWithPrefix (Itoa (sint b) @ ''/'' @ Itoa k)
                                  (env_RemoveWithPrefix env (Itoa (sint b) @ ''/'' @ Itoa k) = None)) [j..v - 1]\<rparr>"
proof (induction env b j v i rule: removeLowVersions.induct)
  case (1 env b j v i)
  show ?case
  proof (cases "j < v")
    case True
    then have u: "[j..v - 1] = j # [j + 1..v - 1]" by (simp add: upto_rec1)
    from True "1.IH" [OF True refl refl] show ?thesis
      by (subst removeLowVersions.simps) (simp add: Let_def u)
  next
    case False
    then show ?thesis by (subst removeLowVersions.simps) simp
  qed
qed

lemma prefix_current_not_removed:
  "Itoa (sint b) @ ''/'' @ Itoa v \<notin> set (map (\<lambda>k. Itoa (sint b) @ ''/'' @ Itoa k) [1..v - 1])"
proof
  assume "Itoa (sint b) @ ''/'' @ Itoa v \<in> set (map (\<lambda>k. Itoa (sint b) @ ''/'' @ Itoa k) [1..v - 1])"
  then obtain k where k: "k \<in> set [1..v - 1]" and e: "Itoa (sint b) @ ''/'' @ Itoa v = Itoa (sint b) @ ''/'' @ Itoa k"
    by auto
  from e have "Itoa v = Itoa k" by simp
  then have "v = k" by (rule Itoa_inj)
  with k show False by simp
qed

lemma updMeta_Recycled:
  "\<forall>m\<in>set (updMeta b (\<lambda>m. m\<lparr>Recycled := True\<rparr>) mt). IndexBuildID (indexMeta m) = b \<longrightarrow> Recycled (indexMeta m)"
  by (induction mt) (simp_all add: updMeta_def)

lemma hasMeta_updMeta:
  "(\<And>m. IndexBuildID (f m) = IndexBuildID m) \<Longrightarrow> hasMeta (updMeta b f mt) c = hasMeta mt c"
  by (induction mt) (auto simp: hasMeta_def updMeta_def)

lemma mt_UpdateRecycleState_ok:
  assumes "fst (mt_UpdateRecycleState env mt b) = None"
  shows "hasMeta (snd (mt_UpdateRecycleState env mt b)) b
       \<and> (\<forall>m\<in>set (snd (mt_UpdateRecycleState env mt b)). IndexBuildID (indexMeta m) = b \<longrightarrow> Recycled (indexMeta m))"
  using assms updMeta_Recycled [of b mt]
  by (auto simp: mt_UpdateRecycleState_def hasMeta_updMeta split: if_splits option.splits)

text \<open>
  A pass of the recycle loop for a record with \<open>MarkDeleted = false\<close>, id \<open>b\<close> and version
  \<open>V\<close>: it calls \<open>RemoveWithPrefix\<close> on the prefixes \<open>str(b) + "/" + str(j)\<close> for
  \<open>j = 1 .. V - 1\<close>, in this order, and then \<open>UpdateRecycleState\<close>; the string
  \<open>str(b) + "/" + str(V)\<close> is not among the prefixes; and when \<open>UpdateRecycleState\<close>
  returns no error, the record of \<open>b\<close> is \<open>Recycled\<close> afterwards.
\<close>

lemma recycleOne_stale_versions:
  assumes "IndexBuildID (indexMeta meta) = b" and "Version (indexMeta meta) = V"
      and "\<not> MarkDeleted (indexMeta meta)"
  shows "recycleOne env meta i =
           i\<lparr>metaTable := snd (mt_UpdateRecycleState env (metaTable i) b),
             calls := calls i
               @ map (\<lambda>j. Call_RemoveWithPrefix (Itoa (sint b) @ ''/'' @ Itoa j)
                            (env_RemoveWithPrefix env (Itoa (sint b) @ ''/'' @ Itoa j) = None))
                   [1..sint V - 1]
               @ [Call_UpdateRecycleState b (fst (mt_UpdateRecycleState env (metaTable i) b) = None)]\<rparr>
       \<and> Itoa (sint b) @ ''/'' @ Itoa (sint V)
           \<notin> set (map (\<lambda>j. Itoa (sint b) @ ''/'' @ Itoa j) [1..sint V - 1])
       \<and> (fst (mt_UpdateRecycleState env (metaTable i) b) = None \<longrightarrow>
            hasMeta (metaTable (recycleOne env meta i)) b
            \<and> (\<forall>m\<in>set (metaTable (recycleOne env meta i)).
                  IndexBuildID (indexMeta m) = b \<longrightarrow> Recycled (indexMeta m)))"
proof -
  have eq: "recycleOne env meta i =
           i\<lparr>metaTable := snd (mt_UpdateRecycleState env (metaTable i) b),
             calls := calls i
               @ map (\<lambda>j. Call_RemoveWithPrefix (Itoa (sint b) @ ''/'' @ Itoa j)
                            (env_RemoveWithPrefix env (Itoa (sint b) @ ''/'' @ Itoa j) = None))
                   [1..sint V - 1]
               @ [Call_UpdateRecycleState b (fst (mt_UpdateRecycleState env (metaTable i) b) = None)]\<rparr>"
    using assms by (simp add: recycleOne_def removeLowVersions_eq Let_def split: prod.splits)
  moreover have "metaTable (recycleOne env meta i) = snd (mt_UpdateRecycleState env (metaTable i) b)"
    by (subst eq) simp
  ultimately show ?thesis
    using prefix_current_not_removed [of b "sint V"] mt_UpdateRecycleState_ok [of env "metaTable i" b]
    by simp
qed

lemma Itoa_digits:
  "Itoa 1 = ''1''" "Itoa 2 = ''2''" "Itoa 3 = ''3''" "Itoa 4 = ''4''" "Itoa 5 = ''5''"
  "Itoa 6 = ''6''" "Itoa 7 = ''7''" "Itoa 8 = ''8''" "Itoa 9 = ''9''" "Itoa 10 = ''10''"
  by (simp_all add: Itoa_def digits.simps digitChar_def)

lemma upto_1_9: "[1..9] = [1, 2, 3, 4, 5, 6, 7, 8, 9 :: int]"
  by (simp add: upto.simps)

text \<open>Scenario S5: at version 3 the tick removes the keys of the versions 1 and 2 only.\<close>

lemma recycleTick_version_3:
  "blobsAfter (calls (recycleTick env_ok (coord [task 5 3])))
     [''5/1/IndexData'', ''5/2/IndexData'', ''5/3/IndexData''] = [''5/3/IndexData'']"
proof -
  have u: "mt_UpdateRecycleState env_ok [task 5 3] 5
     = (None, [\<lparr>indexMeta = (indexMeta (task 5 3))\<lparr>Recycled := True\<rparr>\<rparr>])"
    by (simp add: mt_UpdateRecycleState_def hasMeta_def updMeta_def task_def env_ok_def)
  have rm: "env_RemoveWithPrefix env_ok p = None" for p by (simp add: env_ok_def)
  have g: "GetUnusedIndexFiles [task 5 3] taskLimit = [task 5 3]"
    by (simp add: GetUnusedIndexFiles_def unused_def task_def taskLimit_def)
  have a: "IndexBuildID (indexMeta (task 5 3)) = 5" "Version (indexMeta (task 5 3)) = 3"
    "\<not> MarkDeleted (indexMeta (task 5 3))" by (simp_all add: task_def)
  have r: "[1..2] = [1, 2 :: int]" by (simp add: upto.simps)
  from recycleOne_stale_versions [OF a, of env_ok "coord [task 5 3]"]
  have "calls (recycleTick env_ok (coord [task 5 3]))
      = [Call_RemoveWithPrefix ''5/1'' True, Call_RemoveWithPrefix ''5/2'' True,
         Call_UpdateRecycleState 5 True]"
    by (simp add: recycleTick_def g u r rm Itoa_digits coord_def)
  then show ?thesis by (simp add: kv_RemoveWithPrefix_def)
qed

text \<open>
  C9. For the task 5 at version 10, not marked as deleted and not recycled, a tick of the
  recycle loop selects the record and calls \<open>RemoveWithPrefix\<close> on \<open>5/1\<close> to \<open>5/9\<close>, then
  \<open>UpdateRecycleState\<close>, which sets \<open>Recycled\<close>. The prefix \<open>5/1\<close> has no separator after the
  version: it is also a prefix of the keys under \<open>5/10/\<close>, and the call on it removes the
  blobs of the current version 10.
\<close>

theorem recycle_removes_current_version:
  "GetUnusedIndexFiles (metaTable (coord [task 5 10])) taskLimit = [task 5 10]
   \<and> calls (recycleTick env_ok (coord [task 5 10]))
       = [Call_RemoveWithPrefix ''5/1'' True, Call_RemoveWithPrefix ''5/2'' True,
          Call_RemoveWithPrefix ''5/3'' True, Call_RemoveWithPrefix ''5/4'' True,
          Call_RemoveWithPrefix ''5/5'' True, Call_RemoveWithPrefix ''5/6'' True,
          Call_RemoveWithPrefix ''5/7'' True, Call_RemoveWithPrefix ''5/8'' True,
          Call_RemoveWithPrefix ''5/9'' True, Call_UpdateRecycleState 5 True]
   \<and> metaTable (recycleTick env_ok (coord [task 5 10]))
       = [\<lparr>indexMeta = (indexMeta (task 5 10))\<lparr>Recycled := True\<rparr>\<rparr>]
   \<and> kv_RemoveWithPrefix ''5/1'' [''5/10/IndexData''] = []
   \<and> blobsAfter (calls (recycleTick env_ok (coord [task 5 10])))
        [''5/9/IndexData'', ''5/10/IndexData''] = []"
proof -
  have u: "mt_UpdateRecycleState env_ok [task 5 10] 5
     = (None, [\<lparr>indexMeta = (indexMeta (task 5 10))\<lparr>Recycled := True\<rparr>\<rparr>])"
    by (simp add: mt_UpdateRecycleState_def hasMeta_def updMeta_def task_def env_ok_def)
  have rm: "env_RemoveWithPrefix env_ok p = None" for p by (simp add: env_ok_def)
  have g: "GetUnusedIndexFiles [task 5 10] taskLimit = [task 5 10]"
    by (simp add: GetUnusedIndexFiles_def unused_def task_def taskLimit_def)
  have a: "IndexBuildID (indexMeta (task 5 10)) = 5" "Version (indexMeta (task 5 10)) = 10"
    "\<not> MarkDeleted (indexMeta (task 5 10))" by (simp_all add: task_def)
  from recycleOne_stale_versions [OF a, of env_ok "coord [task 5 10]"]
  have t: "recycleTick env_ok (coord [task 5 10])
      = (coord [task 5 10])
          \<lparr>metaTable := [\<lparr>indexMeta = (indexMeta (task 5 10))\<lparr>Recycled := True\<rparr>\<rparr>],
           calls := [Call_RemoveWithPrefix ''5/1'' True, Call_RemoveWithPrefix ''5/2'' True,
                     Call_RemoveWithPrefix ''5/3'' True, Call_RemoveWithPrefix ''5/4'' True,
                     Call_RemoveWithPrefix ''5/5'' True, Call_RemoveWithPrefix ''5/6'' True,
                     Call_RemoveWithPrefix ''5/7'' True, Call_RemoveWithPrefix ''5/8'' True,
                     Call_RemoveWithPrefix ''5/9'' True, Call_UpdateRecycleState 5 True]\<rparr>"
    by (simp add: recycleTick_def g u upto_1_9 rm Itoa_digits coord_def)
  have k: "kv_RemoveWithPrefix ''5/1'' [''5/10/IndexData''] = []"
    by (simp add: kv_RemoveWithPrefix_def)
  have b: "blobsAfter (calls (recycleTick env_ok (coord [task 5 10])))
        [''5/9/IndexData'', ''5/10/IndexData''] = []"
    by (simp add: t kv_RemoveWithPrefix_def)
  have g': "GetUnusedIndexFiles (metaTable (coord [task 5 10])) taskLimit = [task 5 10]"
    using g by (simp add: coord_def)
  from t k b g' show ?thesis by simp
qed

lemma recycleOne_deleted:
  "MarkDeleted (indexMeta meta) \<Longrightarrow>
   recycleOne env meta i =
     i\<lparr>metaTable := mt_DeleteIndex (metaTable i) (IndexBuildID (indexMeta meta)),
       calls := calls i @ [Call_RemoveWithPrefix (Itoa (sint (IndexBuildID (indexMeta meta))))
                             (env_RemoveWithPrefix env (Itoa (sint (IndexBuildID (indexMeta meta)))) = None),
                           Call_DeleteIndex (IndexBuildID (indexMeta meta))]\<rparr>"
  by (simp add: recycleOne_def Let_def)

lemma unrecycled_DeleteIndex: "unrecycled (mt_DeleteIndex mt b) \<subseteq> unrecycled mt"
  by (auto simp: unrecycled_def mt_DeleteIndex_def)

lemma unrecycled_UpdateRecycleState: "unrecycled (snd (mt_UpdateRecycleState env mt b)) \<subseteq> unrecycled mt"
proof -
  have "unrecycled (updMeta b (\<lambda>m. m\<lparr>Recycled := True\<rparr>) mt) \<subseteq> unrecycled mt"
    by (induction mt) (auto simp: unrecycled_def updMeta_def unused_def)
  then show ?thesis
    by (auto simp: mt_UpdateRecycleState_def split: option.splits)
qed

lemma recycleOne_unrecycled: "unrecycled (metaTable (recycleOne env meta i)) \<subseteq> unrecycled (metaTable i)"
proof (cases "MarkDeleted (indexMeta meta)")
  case True
  then show ?thesis using unrecycled_DeleteIndex by (simp add: recycleOne_deleted)
next
  case False
  then have "metaTable (recycleOne env meta i)
      = snd (mt_UpdateRecycleState env (metaTable i) (IndexBuildID (indexMeta meta)))"
    by (simp add: recycleOne_def removeLowVersions_eq Let_def split: prod.splits)
  then show ?thesis using unrecycled_UpdateRecycleState by simp
qed

lemma fold_recycleOne_unrecycled:
  "unrecycled (metaTable (fold (recycleOne env) metas i)) \<subseteq> unrecycled (metaTable i)"
proof (induction metas arbitrary: i)
  case Nil
  then show ?case by simp
next
  case (Cons meta metas)
  have "unrecycled (metaTable (fold (recycleOne env) metas (recycleOne env meta i)))
      \<subseteq> unrecycled (metaTable (recycleOne env meta i))" by (rule Cons.IH)
  also have "\<dots> \<subseteq> unrecycled (metaTable i)" by (rule recycleOne_unrecycled)
  finally show ?case by simp
qed

text \<open>
  C4, as amended. For a record with \<open>MarkDeleted = true\<close> a pass of the recycle loop calls
  \<open>RemoveWithPrefix(str(IndexBuildID))\<close> and then deletes the metadata through
  \<open>DeleteIndex\<close>, whatever the blob store answered; and over a tick the set of unrecycled
  records does not grow.
\<close>

theorem recycle_deleted_ignores_blob_failure:
  "(MarkDeleted (indexMeta meta) \<longrightarrow>
     recycleOne env meta i =
       i\<lparr>metaTable := mt_DeleteIndex (metaTable i) (IndexBuildID (indexMeta meta)),
         calls := calls i @ [Call_RemoveWithPrefix (Itoa (sint (IndexBuildID (indexMeta meta))))
                               (env_RemoveWithPrefix env (Itoa (sint (IndexBuildID (indexMeta meta)))) = None),
                             Call_DeleteIndex (IndexBuildID (indexMeta meta))]\<rparr>)
   \<and> unrecycled (metaTable (recycleTick env i)) \<subseteq> unrecycled (metaTable i)"
  using recycleOne_deleted [of meta env i] fold_recycleOne_unrecycled [of env _ i]
  by (simp add: recycleTick_def)

text \<open>The theorem at the deleted task 5 and a blob store that fails.\<close>

theorem recycle_deleted_ignores_blob_failure_witness:
  "MarkDeleted (indexMeta (deleted 5 1))
   \<and> recycleOne env_blob_down (deleted 5 1) (coord [deleted 5 1])
       = (coord [])\<lparr>calls := [Call_RemoveWithPrefix ''5'' False, Call_DeleteIndex 5]\<rparr>
   \<and> unrecycled (metaTable (recycleTick env_blob_down (coord [deleted 5 1]))) \<subseteq> {5}"
proof -
  have d: "MarkDeleted (indexMeta (deleted 5 1))" by (simp add: deleted_def)
  have i: "Itoa 5 = ''5''" by (simp add: Itoa_def digits.simps digitChar_def)
  have u: "unrecycled [deleted 5 1] = {5}"
    by (simp add: unrecycled_def unused_def deleted_def task_def)
  have rm: "env_RemoveWithPrefix env_blob_down p \<noteq> None" for p
    by (simp add: env_blob_down_def)
  have del: "mt_DeleteIndex [deleted 5 1] 5 = []"
    by (simp add: mt_DeleteIndex_def deleted_def task_def)
  have b: "IndexBuildID (indexMeta (deleted 5 1)) = 5" by (simp add: deleted_def task_def)
  from recycle_deleted_ignores_blob_failure [of "deleted 5 1" env_blob_down "coord [deleted 5 1]"] d
  show ?thesis
    by (simp add: u i rm del b coord_def)
qed

lemma Itoa_5: "Itoa 5 = ''5''"
  by (simp add: Itoa_def digits.simps digitChar_def)

text \<open>
  C4, as stated, fails: the blob store refuses \<open>RemoveWithPrefix\<close> for the deleted task 5,
  and the tick deletes the metadata of the task all the same.
\<close>

theorem recycle_blob_failure_counterexample:
  "env_RemoveWithPrefix env_blob_down (Itoa (sint (5::64 word))) \<noteq> None
   \<and> metaTable (recycleTick env_blob_down (coord [deleted 5 1])) \<noteq> metaTable (coord [deleted 5 1])
   \<and> calls (recycleTick env_blob_down (coord [deleted 5 1]))
       = [Call_RemoveWithPrefix ''5'' False, Call_DeleteIndex 5]"
  by (simp add: recycleTick_def GetUnusedIndexFiles_def unused_def deleted_def task_def coord_def
      taskLimit_def recycleOne_def Let_def env_blob_down_def env_ok_def mt_DeleteIndex_def Itoa_5)

section \<open>Idempotent admission\<close>

lemma HasSameReq_found:
  "m \<in> set mt \<Longrightarrow> sameRequest req m \<Longrightarrow>
   \<exists>m'\<in>set mt. sameRequest req m' \<and> HasSameReq mt req = (True, IndexBuildID (indexMeta m'))"
proof -
  assume m: "m \<in> set mt" "sameRequest req m"
  then have "find (sameRequest req) mt \<noteq> None" by (auto simp: find_None_iff)
  then obtain m' where f: "find (sameRequest req) mt = Some m'" by auto
  then have "m' \<in> set mt" "sameRequest req m'" by (auto simp: find_Some_iff)
  with f show ?thesis by (auto simp: HasSameReq_def)
qed

lemma BuildIndex_found:
  "HasSameReq (metaTable i) req = (True, b) \<Longrightarrow>
   BuildIndex env req i =
     ((Some \<lparr>bir_Status = \<lparr>ErrorCode = ErrorCode_Success, Reason = ''already have same index''\<rparr>,
             bir_IndexBuildID = b\<rparr>, None), i)"
  by (simp add: BuildIndex_def)

lemma sameRequest_fingerprint:
  "fingerprint req' = fingerprint req \<Longrightarrow> sameRequest req' = sameRequest req"
  by (auto simp: sameRequest_def fun_eq_iff)

lemma HasSameReq_fingerprint:
  "fingerprint req' = fingerprint req \<Longrightarrow> HasSameReq mt req' = HasSameReq mt req"
  using sameRequest_fingerprint [of req' req] by (simp add: HasSameReq_def)

lemma HasSameReq_False: "fst (HasSameReq mt req) = False \<Longrightarrow> find (sameRequest req) mt = None"
  by (auto simp: HasSameReq_def split: option.splits)

lemma Enqueue_ok:
  assumes "Enqueue env t i = (None, t1, i1)" and "find (sameRequest (t_req t)) (metaTable i) = None"
  shows "HasSameReq (metaTable i1) (t_req t) = (True, t_indexBuildID t1)"
proof -
  let ?b = "idAllocator i + 1"
  let ?new = "\<lparr>indexMeta = \<lparr>IndexBuildID = ?b, State = Unissued, Version = 0,
                                        NodeID = 0, MarkDeleted = False, Recycled = False,
                                        IndexFilePaths = [], Req = t_req t\<rparr>\<rparr>"
  from assms(1) have t1: "t_indexBuildID t1 = ?b" and mt: "metaTable i1 = metaTable i @ [?new]"
    by (auto simp: Enqueue_def AddTask_def Let_def split: if_splits option.splits)
  have "sameRequest (t_req t) ?new" by (simp add: sameRequest_def)
  moreover have "find P (xs @ [x]) = Some x" if "find P xs = None" "P x" for P and xs :: "Meta list" and x
    using that by (induction xs) (auto split: if_splits)
  ultimately have "find (sameRequest (t_req t)) (metaTable i @ [?new]) = Some ?new"
    using assms(2) by blast
  with t1 mt show ?thesis by (simp add: HasSameReq_def)
qed

lemma BuildIndex_success:
  assumes "BuildIndex env req i = ((Some r, None), i')" and "ErrorCode (bir_Status r) = ErrorCode_Success"
  shows "HasSameReq (metaTable i') req = (True, bir_IndexBuildID r)"
proof (cases "fst (HasSameReq (metaTable i) req)")
  case True
  then obtain b where h: "HasSameReq (metaTable i) req = (True, b)" by (cases "HasSameReq (metaTable i) req") auto
  from BuildIndex_found [OF h, of env] assms(1) have "i' = i" "bir_IndexBuildID r = b" by auto
  with h show ?thesis by simp
next
  case False
  then obtain b where h: "HasSameReq (metaTable i) req = (False, b)" by (cases "HasSameReq (metaTable i) req") auto
  from False have none: "find (sameRequest req) (metaTable i) = None" by (simp add: HasSameReq_False)
  show ?thesis
  proof (cases "env_ctxDone env")
    case True
    with h assms show ?thesis by (auto simp: BuildIndex_def Let_def)
  next
    case nd: False
    obtain e t1 i1 where enq: "Enqueue env \<lparr>t_req = req, t_indexBuildID = 0\<rparr> i = (e, t1, i1)"
      by (cases "Enqueue env \<lparr>t_req = req, t_indexBuildID = 0\<rparr> i") auto
    show ?thesis
    proof (cases e)
      case None
      with enq none have has: "HasSameReq (metaTable i1) req = (True, t_indexBuildID t1)"
        using Enqueue_ok [of env "\<lparr>t_req = req, t_indexBuildID = 0\<rparr>" i t1 i1] by simp
      from h nd enq None assms have "i' = i1 \<and> bir_IndexBuildID r = t_indexBuildID t1"
        by (auto simp: BuildIndex_def Let_def split: option.splits)
      with has show ?thesis by simp
    next
      case (Some a)
      with h nd enq assms show ?thesis by (auto simp: BuildIndex_def Let_def)
    qed
  qed
qed

lemma HasSameReq_keys:
  "map recordKey mt' = map recordKey mt \<Longrightarrow> HasSameReq mt' req = HasSameReq mt req"
proof (induction mt arbitrary: mt')
  case Nil
  then show ?case by simp
next
  case (Cons m mt)
  then obtain m' mt'' where s: "mt' = m' # mt''" "recordKey m' = recordKey m" "map recordKey mt'' = map recordKey mt"
    by (cases mt') auto
  from Cons.IH [OF s(3)] have "HasSameReq mt'' req = HasSameReq mt req" .
  with s(1,2) show ?case
    by (auto simp: HasSameReq_def sameRequest_def recordKey_def)
qed

lemma distinctIDs_keys:
  "map recordKey mt' = map recordKey mt \<Longrightarrow> distinctIDs mt' = distinctIDs mt"
proof -
  assume "map recordKey mt' = map recordKey mt"
  then have "map fst (map recordKey mt') = map fst (map recordKey mt)" by simp
  then have "map (\<lambda>m. IndexBuildID (indexMeta m)) mt' = map (\<lambda>m. IndexBuildID (indexMeta m)) mt"
    by (simp add: recordKey_def comp_def)
  then show ?thesis by (simp add: distinctIDs_def)
qed

lemma updMeta_keys:
  "(\<And>m. IndexBuildID (f m) = IndexBuildID m \<and> MarkDeleted (f m) = MarkDeleted m \<and> Req (f m) = Req m)
   \<Longrightarrow> map recordKey (updMeta b f mt) = map recordKey mt"
  by (induction mt) (simp_all add: updMeta_def recordKey_def)

lemma mt_UpdateVersion_keys: "map recordKey (snd (mt_UpdateVersion env mt b)) = map recordKey mt"
  by (simp add: mt_UpdateVersion_def updMeta_keys split: option.splits)

lemma mt_BuildIndex_keys: "map recordKey (snd (mt_BuildIndex env mt b n)) = map recordKey mt"
  by (simp add: mt_BuildIndex_def updMeta_keys split: option.splits)

lemma mt_UpdateRecycleState_keys: "map recordKey (snd (mt_UpdateRecycleState env mt b)) = map recordKey mt"
  by (simp add: mt_UpdateRecycleState_def updMeta_keys split: option.splits)

lemma assignOne_keys:
  "map recordKey (metaTable (snd (assignOne env index meta i))) = map recordKey (metaTable i)"
proof -
  have u: "map recordKey (snd (mt_UpdateVersion env (metaTable i) b)) = map recordKey (metaTable i)" for b
    by (rule mt_UpdateVersion_keys)
  have "map recordKey (snd (mt_BuildIndex env (snd (mt_UpdateVersion env (metaTable i) b)) b n))
      = map recordKey (metaTable i)" for b n
    using mt_BuildIndex_keys [of env "snd (mt_UpdateVersion env (metaTable i) b)" b n] u [of b] by simp
  with u show ?thesis
    by (simp add: assignOne_def Let_def split_beta split: option.splits)
qed

lemma assignLoop_keys:
  "map recordKey (metaTable (assignLoop env index metas i)) = map recordKey (metaTable i)"
proof (induction metas arbitrary: index i)
  case Nil
  then show ?case by simp
next
  case (Cons meta metas)
  obtain c i' where one: "assignOne env index meta i = (c, i')" by (cases "assignOne env index meta i")
  with assignOne_keys [of env index meta i] have k: "map recordKey (metaTable i') = map recordKey (metaTable i)"
    by simp
  show ?case
  proof (cases c)
    case Break
    with one k show ?thesis by simp
  next
    case Next
    with one have "assignLoop env index (meta # metas) i = assignLoop env (Suc index) metas i'" by simp
    with Cons.IH [of "Suc index" i'] k show ?thesis by simp
  qed
qed

lemma assignTaskTick_keys:
  "map recordKey (metaTable (assignTaskTick env i)) = map recordKey (metaTable i)"
  by (simp add: assignTaskTick_def assignLoop_keys)

lemma find_filter_same:
  "(\<And>x. x \<in> set xs \<Longrightarrow> P x \<Longrightarrow> Q x) \<Longrightarrow> find P (filter Q xs) = find P xs"
  by (induction xs) auto

lemma recycleOne_table:
  "metaTable (recycleOne env meta i) =
     (if MarkDeleted (indexMeta meta) then mt_DeleteIndex (metaTable i) (IndexBuildID (indexMeta meta))
      else snd (mt_UpdateRecycleState env (metaTable i) (IndexBuildID (indexMeta meta))))"
  by (simp add: recycleOne_def removeLowVersions_eq Let_def split: prod.splits)

lemma recycleOne_inv:
  assumes d: "deletable (meta # metas) (metaTable i)" and di: "distinctIDs (metaTable i)"
  shows "deletable metas (metaTable (recycleOne env meta i))
       \<and> distinctIDs (metaTable (recycleOne env meta i))
       \<and> HasSameReq (metaTable (recycleOne env meta i)) req = HasSameReq (metaTable i) req"
proof (cases "MarkDeleted (indexMeta meta)")
  case True
  let ?b = "IndexBuildID (indexMeta meta)"
  let ?Q = "\<lambda>m. IndexBuildID (indexMeta m) \<noteq> ?b"
  have t: "metaTable (recycleOne env meta i) = filter ?Q (metaTable i)"
    using True by (simp add: recycleOne_table mt_DeleteIndex_def)
  have marked: "MarkDeleted (indexMeta m)" if "m \<in> set (metaTable i)" "IndexBuildID (indexMeta m) = ?b" for m
  proof -
    from that(1) have "recordKey m \<in> set (map recordKey (metaTable i))" by simp
    moreover from d True have "\<forall>k\<in>set (map recordKey (metaTable i)). fst k = ?b \<longrightarrow> fst (snd k)"
      by (simp add: deletable_def)
    ultimately have "fst (recordKey m) = ?b \<longrightarrow> fst (snd (recordKey m))" by blast
    with that(2) show ?thesis by (simp add: recordKey_def)
  qed
  have "find (sameRequest req) (filter ?Q (metaTable i)) = find (sameRequest req) (metaTable i)"
  proof (rule find_filter_same)
    fix x assume x: "x \<in> set (metaTable i)" "sameRequest req x"
    show "IndexBuildID (indexMeta x) \<noteq> ?b"
    proof
      assume "IndexBuildID (indexMeta x) = ?b"
      with x(1) have "MarkDeleted (indexMeta x)" by (rule marked)
      with x(2) show False by (simp add: sameRequest_def)
    qed
  qed
  then have h: "HasSameReq (metaTable (recycleOne env meta i)) req = HasSameReq (metaTable i) req"
    by (simp add: t HasSameReq_def)
  have sub: "set (map recordKey (filter ?Q (metaTable i))) \<subseteq> set (map recordKey (metaTable i))"
    by auto
  have "deletable metas (filter ?Q (metaTable i))"
    unfolding deletable_def
  proof (intro ballI impI)
    fix m k
    assume m: "m \<in> set metas" "MarkDeleted (indexMeta m)"
      and k: "k \<in> set (map recordKey (filter ?Q (metaTable i)))" "fst k = IndexBuildID (indexMeta m)"
    from k(1) sub have "k \<in> set (map recordKey (metaTable i))" by blast
    moreover from m(1) have "m \<in> set (meta # metas)" by simp
    with d m(2) have "\<forall>k\<in>set (map recordKey (metaTable i)). fst k = IndexBuildID (indexMeta m) \<longrightarrow> fst (snd k)"
      unfolding deletable_def by blast
    ultimately show "fst (snd k)" using k(2) by blast
  qed
  then have "deletable metas (metaTable (recycleOne env meta i))" by (simp add: t)
  moreover from di have "distinctIDs (metaTable (recycleOne env meta i))"
    by (simp add: t distinctIDs_def distinct_map_filter)
  ultimately show ?thesis using h by simp
next
  case False
  then have k: "map recordKey (metaTable (recycleOne env meta i)) = map recordKey (metaTable i)"
    by (simp add: recycleOne_table mt_UpdateRecycleState_keys)
  from d have "deletable metas (metaTable i)" by (simp add: deletable_def)
  then have "deletable metas (metaTable (recycleOne env meta i))"
    by (simp add: deletable_def k)
  moreover from k di have "distinctIDs (metaTable (recycleOne env meta i))"
    using distinctIDs_keys [OF k] by simp
  moreover have "HasSameReq (metaTable (recycleOne env meta i)) req = HasSameReq (metaTable i) req"
    using k by (rule HasSameReq_keys)
  ultimately show ?thesis by simp
qed

lemma fold_recycleOne_inv:
  "deletable metas (metaTable i) \<Longrightarrow> distinctIDs (metaTable i) \<Longrightarrow>
   distinctIDs (metaTable (fold (recycleOne env) metas i))
   \<and> HasSameReq (metaTable (fold (recycleOne env) metas i)) req = HasSameReq (metaTable i) req"
proof (induction metas arbitrary: i)
  case Nil
  then show ?case by simp
next
  case (Cons meta metas)
  from recycleOne_inv [OF Cons.prems, of env req]
  have a: "deletable metas (metaTable (recycleOne env meta i))"
    and b: "distinctIDs (metaTable (recycleOne env meta i))"
    and c: "HasSameReq (metaTable (recycleOne env meta i)) req = HasSameReq (metaTable i) req" by simp_all
  from Cons.IH [OF a b] c show ?case by simp
qed

lemma deletable_GetUnusedIndexFiles:
  assumes "distinctIDs mt"
  shows "deletable (GetUnusedIndexFiles mt limit) mt"
  unfolding deletable_def
proof (intro ballI impI)
  fix meta k
  assume meta: "meta \<in> set (GetUnusedIndexFiles mt limit)" and md: "MarkDeleted (indexMeta meta)"
    and k: "k \<in> set (map recordKey mt)" and e: "fst k = IndexBuildID (indexMeta meta)"
  from meta have mm: "meta \<in> set mt"
    by (auto simp: GetUnusedIndexFiles_def dest: in_set_takeD)
  from k obtain m where m: "m \<in> set mt" "k = recordKey m" by auto
  with e have "IndexBuildID (indexMeta m) = IndexBuildID (indexMeta meta)" by (simp add: recordKey_def)
  moreover from assms have "inj_on (\<lambda>m. IndexBuildID (indexMeta m)) (set mt)"
    by (simp add: distinctIDs_def distinct_map)
  ultimately have "m = meta" using m(1) mm by (simp add: inj_on_def)
  with md m(2) show "fst (snd k)" by (simp add: recordKey_def)
qed

lemma recycleTick_inv:
  "distinctIDs (metaTable i) \<Longrightarrow>
   distinctIDs (metaTable (recycleTick env i))
   \<and> HasSameReq (metaTable (recycleTick env i)) req = HasSameReq (metaTable i) req"
proof -
  assume d: "distinctIDs (metaTable i)"
  then have "deletable (GetUnusedIndexFiles (metaTable i) taskLimit) (metaTable i)"
    by (rule deletable_GetUnusedIndexFiles)
  from fold_recycleOne_inv [OF this d, of env req] show ?thesis
    unfolding recycleTick_def .
qed

lemma find_append_Some: "find P xs = Some y \<Longrightarrow> find P (xs @ zs) = Some y"
  by (induction xs) (auto split: if_splits)

lemma Enqueue_table:
  "metaTable (snd (snd (Enqueue env t i))) = metaTable i
   \<or> (\<exists>new. metaTable (snd (snd (Enqueue env t i))) = metaTable i @ [new]
          \<and> \<not> hasMeta (metaTable i) (IndexBuildID (indexMeta new)))"
proof (cases "hasMeta (metaTable i) (idAllocator i + 1)")
  case True
  then show ?thesis by (simp add: Enqueue_def AddTask_def Let_def)
next
  case False
  then show ?thesis
    by (cases "env_EnqueueErr env") (simp_all add: Enqueue_def AddTask_def Let_def)
qed

lemma BuildIndex_table:
  "metaTable (snd (BuildIndex env q i)) = metaTable i
   \<or> (\<exists>new. metaTable (snd (BuildIndex env q i)) = metaTable i @ [new]
          \<and> \<not> hasMeta (metaTable i) (IndexBuildID (indexMeta new)))"
proof (cases "fst (HasSameReq (metaTable i) q) \<or> env_ctxDone env")
  case True
  then show ?thesis by (auto simp: BuildIndex_def Let_def split_beta)
next
  case False
  then have "snd (BuildIndex env q i) = snd (snd (Enqueue env \<lparr>t_req = q, t_indexBuildID = 0\<rparr> i))"
    by (simp add: BuildIndex_def Let_def split_beta split: option.splits)
  with Enqueue_table [of env "\<lparr>t_req = q, t_indexBuildID = 0\<rparr>" i] show ?thesis by simp
qed

lemma BuildIndex_inv:
  assumes "distinctIDs (metaTable i)"
  shows "distinctIDs (metaTable (snd (BuildIndex env q i)))
       \<and> (HasSameReq (metaTable i) req = (True, b)
            \<longrightarrow> HasSameReq (metaTable (snd (BuildIndex env q i))) req = (True, b))"
proof -
  from BuildIndex_table [of env q i] consider
    "metaTable (snd (BuildIndex env q i)) = metaTable i"
    | new where "metaTable (snd (BuildIndex env q i)) = metaTable i @ [new]"
        "\<not> hasMeta (metaTable i) (IndexBuildID (indexMeta new))" by blast
  then show ?thesis
  proof cases
    case 1
    with assms show ?thesis by simp
  next
    case 2
    from assms 2 have "distinctIDs (metaTable (snd (BuildIndex env q i)))"
      by (simp add: distinctIDs_def hasMeta_def)
    moreover have "HasSameReq (metaTable i @ [new]) req = (True, b)" if "HasSameReq (metaTable i) req = (True, b)"
    proof -
      from that obtain m where "find (sameRequest req) (metaTable i) = Some m" "IndexBuildID (indexMeta m) = b"
        by (auto simp: HasSameReq_def split: option.splits)
      then show ?thesis using find_append_Some [of "sameRequest req" "metaTable i" m "[new]"]
        by (simp add: HasSameReq_def)
    qed
    ultimately show ?thesis using 2(1) by simp
  qed
qed

lemma applyEvent_inv:
  assumes "distinctIDs (metaTable i)" and "HasSameReq (metaTable i) req = (True, b)"
  shows "distinctIDs (metaTable (applyEvent ev i)) \<and> HasSameReq (metaTable (applyEvent ev i)) req = (True, b)"
proof (cases ev)
  case (Ev_BuildIndex env q)
  with BuildIndex_inv [OF assms(1), of env q req b] assms(2) show ?thesis by simp
next
  case (Ev_assignTaskTick env)
  with assms HasSameReq_keys [OF assignTaskTick_keys [of env i], of req]
    distinctIDs_keys [OF assignTaskTick_keys [of env i]] show ?thesis
    by simp
next
  case (Ev_recycleTick env)
  with assms recycleTick_inv [OF assms(1), of env req] show ?thesis by simp
next
  case (Ev_UpdateStateCode code)
  with assms show ?thesis by (simp add: UpdateStateCode_def)
qed

lemma fold_applyEvent_inv:
  "distinctIDs (metaTable i) \<Longrightarrow> HasSameReq (metaTable i) req = (True, b) \<Longrightarrow>
   distinctIDs (metaTable (fold applyEvent evs i)) \<and> HasSameReq (metaTable (fold applyEvent evs i)) req = (True, b)"
proof (induction evs arbitrary: i)
  case Nil
  then show ?case by simp
next
  case (Cons ev evs)
  from applyEvent_inv [OF Cons.prems, of ev]
  have "distinctIDs (metaTable (applyEvent ev i))" "HasSameReq (metaTable (applyEvent ev i)) req = (True, b)"
    by simp_all
  from Cons.IH [OF this] show ?case by simp
qed

text \<open>
  C1. If the metadata table holds a record that is not marked as deleted and has the
  fingerprint of the request, \<open>BuildIndex\<close> answers \<open>Success\<close> with the id of such a record
  (the one the scan finds) and leaves the coordinator as it is: no task is created. When a
  call of \<open>BuildIndex\<close> has answered \<open>Success\<close>, a following call with a request of the same
  fingerprint answers \<open>Success\<close> with the same \<open>IndexBuildID\<close> and creates no task; and so
  it does after any other calls of \<open>BuildIndex\<close>, ticks of the assignment and recycle loops
  and changes of the state code, as long as no index is dropped in between.
\<close>

theorem BuildIndex_idempotent:
  "(m \<in> set (metaTable i) \<and> sameRequest req m \<longrightarrow>
      (\<exists>m'\<in>set (metaTable i). sameRequest req m'
         \<and> BuildIndex env req i =
             ((Some \<lparr>bir_Status = \<lparr>ErrorCode = ErrorCode_Success, Reason = ''already have same index''\<rparr>,
                     bir_IndexBuildID = IndexBuildID (indexMeta m')\<rparr>, None), i)))
   \<and> (BuildIndex env req i = ((Some r, None), i') \<and> ErrorCode (bir_Status r) = ErrorCode_Success
        \<and> fingerprint req' = fingerprint req \<longrightarrow>
      BuildIndex env' req' i' =
        ((Some \<lparr>bir_Status = \<lparr>ErrorCode = ErrorCode_Success, Reason = ''already have same index''\<rparr>,
                bir_IndexBuildID = bir_IndexBuildID r\<rparr>, None), i'))
   \<and> (distinctIDs (metaTable i)
        \<and> BuildIndex env req i = ((Some r, None), i') \<and> ErrorCode (bir_Status r) = ErrorCode_Success
        \<and> fingerprint req' = fingerprint req \<longrightarrow>
      BuildIndex env' req' (fold applyEvent evs i') =
        ((Some \<lparr>bir_Status = \<lparr>ErrorCode = ErrorCode_Success, Reason = ''already have same index''\<rparr>,
                bir_IndexBuildID = bir_IndexBuildID r\<rparr>, None), fold applyEvent evs i'))"
proof (intro conjI impI)
  assume "m \<in> set (metaTable i) \<and> sameRequest req m"
  then obtain m' where "m' \<in> set (metaTable i)" "sameRequest req m'"
    "HasSameReq (metaTable i) req = (True, IndexBuildID (indexMeta m'))"
    using HasSameReq_found [of m "metaTable i" req] by blast
  then show "\<exists>m'\<in>set (metaTable i). sameRequest req m'
         \<and> BuildIndex env req i =
             ((Some \<lparr>bir_Status = \<lparr>ErrorCode = ErrorCode_Success, Reason = ''already have same index''\<rparr>,
                     bir_IndexBuildID = IndexBuildID (indexMeta m')\<rparr>, None), i)"
    using BuildIndex_found [of i req "IndexBuildID (indexMeta m')" env] by blast
next
  assume a: "BuildIndex env req i = ((Some r, None), i') \<and> ErrorCode (bir_Status r) = ErrorCode_Success
        \<and> fingerprint req' = fingerprint req"
  then have "HasSameReq (metaTable i') req = (True, bir_IndexBuildID r)"
    using BuildIndex_success [of env req i r i'] by blast
  with a have "HasSameReq (metaTable i') req' = (True, bir_IndexBuildID r)"
    using HasSameReq_fingerprint [of req' req "metaTable i'"] by simp
  then show "BuildIndex env' req' i' =
        ((Some \<lparr>bir_Status = \<lparr>ErrorCode = ErrorCode_Success, Reason = ''already have same index''\<rparr>,
                bir_IndexBuildID = bir_IndexBuildID r\<rparr>, None), i')"
    by (rule BuildIndex_found)
next
  assume a: "distinctIDs (metaTable i)
        \<and> BuildIndex env req i = ((Some r, None), i') \<and> ErrorCode (bir_Status r) = ErrorCode_Success
        \<and> fingerprint req' = fingerprint req"
  then have h: "HasSameReq (metaTable i') req = (True, bir_IndexBuildID r)"
    using BuildIndex_success [of env req i r i'] by blast
  from a have "i' = snd (BuildIndex env req i)" by simp
  with a BuildIndex_inv [of i env req] have d: "distinctIDs (metaTable i')" by simp
  from fold_applyEvent_inv [OF d h, of evs]
  have "HasSameReq (metaTable (fold applyEvent evs i')) req = (True, bir_IndexBuildID r)" by simp
  with a have "HasSameReq (metaTable (fold applyEvent evs i')) req' = (True, bir_IndexBuildID r)"
    using HasSameReq_fingerprint [of req' req "metaTable (fold applyEvent evs i')"] by simp
  then show "BuildIndex env' req' (fold applyEvent evs i') =
        ((Some \<lparr>bir_Status = \<lparr>ErrorCode = ErrorCode_Success, Reason = ''already have same index''\<rparr>,
                bir_IndexBuildID = bir_IndexBuildID r\<rparr>, None), fold applyEvent evs i')"
    by (rule BuildIndex_found)
qed

text \<open>
  The theorem at scenario S1: two calls for the same request, with and without ticks of
  the loops in between, and a call for a request whose task exists.
\<close>

theorem BuildIndex_idempotent_witness:
  "BuildIndex env_ok req7 (coord []) =
     ((Some \<lparr>bir_Status = \<lparr>ErrorCode = ErrorCode_Success, Reason = []\<rparr>, bir_IndexBuildID = 101\<rparr>, None),
      (coord [task 101 0])\<lparr>idAllocator := 101\<rparr>)
   \<and> BuildIndex env_ok req7 ((coord [task 101 0])\<lparr>idAllocator := 101\<rparr>) =
     ((Some \<lparr>bir_Status = \<lparr>ErrorCode = ErrorCode_Success, Reason = ''already have same index''\<rparr>,
             bir_IndexBuildID = 101\<rparr>, None), (coord [task 101 0])\<lparr>idAllocator := 101\<rparr>)
   \<and> fst (BuildIndex env_ok req7
        (fold applyEvent [Ev_assignTaskTick env_ok, Ev_recycleTick env_blob_down,
                          Ev_UpdateStateCode StateCode_Abnormal]
           ((coord [task 101 0])\<lparr>idAllocator := 101\<rparr>))) =
     (Some \<lparr>bir_Status = \<lparr>ErrorCode = ErrorCode_Success, Reason = ''already have same index''\<rparr>,
            bir_IndexBuildID = 101\<rparr>, None)
   \<and> BuildIndex env_ok req7 (coord [task 5 0]) =
     ((Some \<lparr>bir_Status = \<lparr>ErrorCode = ErrorCode_Success, Reason = ''already have same index''\<rparr>,
             bir_IndexBuildID = 5\<rparr>, None), coord [task 5 0])"
proof -
  let ?r = "\<lparr>bir_Status = \<lparr>ErrorCode = ErrorCode_Success, Reason = []\<rparr>, bir_IndexBuildID = 101\<rparr>"
  let ?i = "(coord [task 101 0])\<lparr>idAllocator := 101\<rparr>"
  let ?evs = "[Ev_assignTaskTick env_ok, Ev_recycleTick env_blob_down, Ev_UpdateStateCode StateCode_Abnormal]"
  have first: "BuildIndex env_ok req7 (coord []) = ((Some ?r, None), ?i)"
    by (simp add: BuildIndex_def HasSameReq_def Enqueue_def AddTask_def hasMeta_def WaitToFinish_def
        env_ok_def coord_def task_def Let_def)
  have m: "task 5 0 \<in> set (metaTable (coord [task 5 0])) \<and> sameRequest req7 (task 5 0)"
    by (simp add: coord_def sameRequest_def task_def)
  have d: "distinctIDs (metaTable (coord []))" by (simp add: distinctIDs_def coord_def)
  from BuildIndex_idempotent [of "task 5 0" "coord [task 5 0]" req7 env_ok ?r ?i req7 env_ok "[]"] m
  have fourth: "BuildIndex env_ok req7 (coord [task 5 0]) =
     ((Some \<lparr>bir_Status = \<lparr>ErrorCode = ErrorCode_Success, Reason = ''already have same index''\<rparr>,
             bir_IndexBuildID = 5\<rparr>, None), coord [task 5 0])"
    by (simp add: coord_def task_def)
  from BuildIndex_idempotent [of "task 5 0" "coord []" req7 env_ok ?r ?i req7 env_ok ?evs] first d
  have second: "BuildIndex env_ok req7 ?i =
     ((Some \<lparr>bir_Status = \<lparr>ErrorCode = ErrorCode_Success, Reason = ''already have same index''\<rparr>,
             bir_IndexBuildID = 101\<rparr>, None), ?i)"
    and third: "BuildIndex env_ok req7 (fold applyEvent ?evs ?i) =
     ((Some \<lparr>bir_Status = \<lparr>ErrorCode = ErrorCode_Success, Reason = ''already have same index''\<rparr>,
             bir_IndexBuildID = 101\<rparr>, None), fold applyEvent ?evs ?i)"
    by simp_all
  from first second third fourth show ?thesis by simp
qed

section \<open>Component states\<close>

text \<open>
  C10. For every coordinator state code, \<open>GetComponentStates\<close> returns a response and no
  error; the response's status is \<open>Success\<close> and its component state code is the
  coordinator's current one. A newly constructed coordinator is \<open>Abnormal\<close> and is
  answered in the same way: no health gate rejects the call.
\<close>

theorem GetComponentStates_reports_state:
  "snd (GetComponentStates i) = None
   \<and> map_option (\<lambda>r. (ErrorCode (cs_Status r), ci_StateCode (cs_State r)))
        (fst (GetComponentStates i)) = Some (ErrorCode_Success, stateCode i)
   \<and> stateCode NewIndexCoord = StateCode_Abnormal
   \<and> map_option (\<lambda>r. (ErrorCode (cs_Status r), ci_StateCode (cs_State r)))
        (fst (GetComponentStates (UpdateStateCode c NewIndexCoord))) = Some (ErrorCode_Success, c)"
  by (simp add: GetComponentStates_def NewIndexCoord_def UpdateStateCode_def)

theorem GetComponentStates_reports_state_witness:
  "map_option (\<lambda>r. (ErrorCode (cs_Status r), ci_StateCode (cs_State r)))
        (fst (GetComponentStates NewIndexCoord)) = Some (ErrorCode_Success, StateCode_Abnormal)"
  using GetComponentStates_reports_state [of NewIndexCoord StateCode_Abnormal]
  by (simp add: NewIndexCoord_def UpdateStateCode_def)


end
